theory Spec2Isabelle
  imports Complex_Main "HOL-Library.AList"
begin

section \<open>JSON values as the JavaScript host hands them to the program\<close>

text \<open>
  Every function of the repository works on the result of \<^verbatim>\<open>JSON.parse\<close>: a tree of
  null, booleans, numbers, strings, arrays and plain objects. An object is the list of its
  own properties in the order in which JavaScript enumerates them (\<^verbatim>\<open>Object.keys\<close>,
  \<^verbatim>\<open>Object.entries\<close>, \<^verbatim>\<open>Object.values\<close>, \<^verbatim>\<open>JSON.stringify\<close>); a property is
  read by its first entry.

  Numbers are IEEE doubles. A finite double is a rational number, so \<open>Fin q\<close> carries its
  exact value; \<^verbatim>\<open>JSON.parse("1e999")\<close> is \<^verbatim>\<open>Infinity\<close>, hence the two infinities.
  \<^verbatim>\<open>NaN\<close> is never a parsed value and only arises from a coercion (\<open>IsNaN\<close> in
  \<open>to_number\<close> below). Negative zero is identified with zero: no operation of the program
  tells them apart. Strings are sequences of code units; the model has the code units
  0 to 255.

  The properties that every object inherits from \<^verbatim>\<open>Object.prototype\<close>
  (\<^verbatim>\<open>toString\<close>, \<^verbatim>\<open>constructor\<close>, ...) are seen by the operator \<^verbatim>\<open>in\<close>, by a
  property read under a computed name and by the conversion of an object to a string or a
  number. The tree metrics and the search use none of the three, they enumerate own
  properties; the schema validator uses all three, and the inherited properties are part of
  its model.
\<close>

datatype jnum = Fin rat | PosInf | NegInf

datatype json =
    JNull
  | JBool bool
  | JNum jnum
  | JStr string
  | JArr "json list"
  | JObj "(string \<times> json) list"

text \<open>\<^verbatim>\<open>typeof\<close>, \<^verbatim>\<open>Array.isArray\<close>, truthiness.\<close>

fun js_typeof :: "json \<Rightarrow> string" where
  "js_typeof JNull = ''object''"
| "js_typeof (JBool _) = ''boolean''"
| "js_typeof (JNum _) = ''number''"
| "js_typeof (JStr _) = ''string''"
| "js_typeof (JArr _) = ''object''"
| "js_typeof (JObj _) = ''object''"

fun isArray :: "json \<Rightarrow> bool" where
  "isArray (JArr _) = True"
| "isArray _ = False"

fun truthy :: "json \<Rightarrow> bool" where
  "truthy JNull = False"
| "truthy (JBool b) = b"
| "truthy (JNum n) = (n \<noteq> Fin 0)"
| "truthy (JStr s) = (s \<noteq> [])"
| "truthy (JArr _) = True"
| "truthy (JObj _) = True"

text \<open>The elements of an array, and \<^verbatim>\<open>Object.keys\<close>, \<^verbatim>\<open>Object.values\<close> of an object.\<close>

fun elements :: "json \<Rightarrow> json list" where
  "elements (JArr xs) = xs"
| "elements _ = []"

fun object_keys :: "json \<Rightarrow> string list" where
  "object_keys (JObj fs) = map fst fs"
| "object_keys _ = []"

fun object_values :: "json \<Rightarrow> json list" where
  "object_values (JObj fs) = map snd fs"
| "object_values _ = []"

text \<open>
  A JavaScript array used as a stack: the model keeps the top at the head of the list, so
  \<^verbatim>\<open>stack.pop()\<close> takes the head and \<^verbatim>\<open>stack.push(...items)\<close>, which leaves the last
  item on top, puts the items in front in reverse.
\<close>

definition push_all :: "'a list \<Rightarrow> 'a list \<Rightarrow> 'a list" where
  "push_all items stack = rev items @ stack"

text \<open>The number of nodes of a value; the loops below terminate because it decreases.\<close>

fun nodes :: "json \<Rightarrow> nat" where
  "nodes (JArr xs) = Suc (sum_list (map nodes xs))"
| "nodes (JObj fs) = Suc (sum_list (map (\<lambda>kv. nodes (snd kv)) fs))"
| "nodes _ = Suc 0"

definition stack_nodes :: "json list \<Rightarrow> nat" where
  "stack_nodes stack = sum_list (map nodes stack)"

lemma element_nodes: "x \<in> set xs \<Longrightarrow> nodes x \<le> sum_list (map nodes xs)"
  by (induction xs) auto

lemma entry_nodes: "(k, v) \<in> set fs \<Longrightarrow> nodes v \<le> sum_list (map (\<lambda>kv. nodes (snd kv)) fs)"
  by (induction fs) auto

lemma nodes_children:
  "js_typeof c = ''object'' \<Longrightarrow> c \<noteq> JNull \<Longrightarrow>
   nodes c = Suc (sum_list (map nodes (if isArray c then elements c else object_values c)))"
  by (cases c) (simp_all add: comp_def)

lemma stack_nodes_push:
  "stack_nodes (push_all items stack) = sum_list (map nodes items) + stack_nodes stack"
  by (simp add: stack_nodes_def push_all_def rev_map [symmetric])

lemma stack_nodes_children:
  assumes "js_typeof c = ''object''" and "c \<noteq> JNull"
  shows "isArray c \<Longrightarrow> stack_nodes (push_all (elements c) stack) < stack_nodes (c # stack)"
    and "\<not> isArray c \<Longrightarrow>
         stack_nodes (push_all (object_values c) stack) < stack_nodes (c # stack)"
  using nodes_children [OF assms] by (simp_all add: stack_nodes_push) (simp_all add: stack_nodes_def)

lemma stack_nodes_pop: "stack_nodes stack < stack_nodes (c # stack)"
  by (cases c) (simp_all add: stack_nodes_def)

lemma fst_push_all:
  "map fst (push_all (map (\<lambda>v. (v, d)) vs) stack) = push_all vs (map fst stack)"
  by (simp add: push_all_def rev_map comp_def)

section \<open>Strings and numbers of the host\<close>

text \<open>
  What the program leaves to the JavaScript engine and the model cannot compute is a
  parameter: the text of a number that is not a safe integer, the numeric value of a
  string, whether a floating-point quotient is integral, regular expressions, and the
  parsers behind \<^verbatim>\<open>JSON.parse\<close>, \<^verbatim>\<open>new URL\<close> and \<^verbatim>\<open>Date.parse\<close>
  (\<open>None\<close> where \<^verbatim>\<open>JSON.parse\<close> throws).
\<close>

record host =
  number_text :: "rat \<Rightarrow> string"
  string_to_number :: "string \<Rightarrow> jnum option"
  quotient_is_integer :: "jnum \<Rightarrow> jnum \<Rightarrow> bool"
  regexp_compiles :: "string \<Rightarrow> bool"
  regexp_test :: "string \<Rightarrow> bool \<Rightarrow> string \<Rightarrow> bool"
  url_parses :: "string \<Rightarrow> bool"
  date_parses :: "string \<Rightarrow> bool"
  json_parse :: "string \<Rightarrow> json option"

text \<open>Decimal digits of a natural number (\<^verbatim>\<open>index.toString()\<close>, \<^verbatim>\<open>${data.length}\<close>).\<close>

function dec :: "nat \<Rightarrow> string" where
  "dec n = (if n < 10 then [''0123456789'' ! n]
            else dec (n div 10) @ [''0123456789'' ! (n mod 10)])"
  by pat_completeness auto
termination
  by (relation "measure id") simp_all

declare dec.simps [simp del]

text \<open>
  \<^verbatim>\<open>Number.isInteger\<close>, \<^verbatim>\<open>Number.isFinite\<close>, and the text of a number. The digits of
  an integer of magnitude at most \<open>2^53\<close> are those of its value; every other finite
  number is printed by the host.
\<close>

definition integral :: "rat \<Rightarrow> bool" where
  "integral q = (of_int \<lfloor>q\<rfloor> = q)"

fun isInteger :: "jnum \<Rightarrow> bool" where
  "isInteger (Fin q) = integral q"
| "isInteger _ = False"

fun isFinite :: "jnum \<Rightarrow> bool" where
  "isFinite (Fin q) = True"
| "isFinite _ = False"

fun number_string :: "host \<Rightarrow> jnum \<Rightarrow> string" where
  "number_string h (Fin q) =
     (if integral q \<and> \<bar>q\<bar> \<le> 2 ^ 53
      then (if q < 0 then ''-'' else []) @ dec (nat \<bar>\<lfloor>q\<rfloor>\<bar>)
      else number_text h q)"
| "number_string h PosInf = ''Infinity''"
| "number_string h NegInf = ''-Infinity''"

text \<open>\<^verbatim>\<open>Array.prototype.join\<close> on strings.\<close>

fun join :: "string list \<Rightarrow> string \<Rightarrow> string" where
  "join [] sep = []"
| "join [x] sep = x"
| "join (x # y # ys) sep = x @ sep @ join (y # ys) sep"

text \<open>
  \<^verbatim>\<open>String(value)\<close> and \<^verbatim>\<open>`${value}`\<close>, where the conversion returns: an array is
  the join of its elements with commas, where \<^verbatim>\<open>null\<close> counts as the empty string; an
  object is \<^verbatim>\<open>[object Object]\<close>, the result of the inherited \<^verbatim>\<open>toString\<close>.
\<close>

fun js_String :: "host \<Rightarrow> json \<Rightarrow> string" where
  "js_String h JNull = ''null''"
| "js_String h (JBool b) = (if b then ''true'' else ''false'')"
| "js_String h (JNum n) = number_string h n"
| "js_String h (JStr s) = s"
| "js_String h (JArr xs) =
     join (map (\<lambda>x. if x = JNull then [] else js_String h x) xs) '',''"
| "js_String h (JObj fs) = ''[object Object]''"

text \<open>
  The conversion of an object calls the object's \<^verbatim>\<open>toString\<close>. In a parsed object with
  a property \<^verbatim>\<open>toString\<close> of its own that property is a value, not a function. The
  conversion then tries \<^verbatim>\<open>valueOf\<close>, which is no function either when the object has
  its own and returns the object itself when it is the inherited one; neither gives a
  primitive, and the conversion throws a \<^verbatim>\<open>TypeError\<close>. An array is converted by
  \<^verbatim>\<open>join\<close>, which converts every element other than \<^verbatim>\<open>null\<close> in turn. The same
  holds for the conversion to a property key and for the conversion to a number, which
  goes through the string of an array or an object.

  \<open>convertible\<close> says that the conversion returns, and \<open>ToString\<close> is the conversion
  with its \<^verbatim>\<open>TypeError\<close>, which is \<open>None\<close>. A value that is not an object is always
  converted.
\<close>

fun convertible :: "json \<Rightarrow> bool" where
  "convertible (JObj fs) = (''toString'' \<notin> set (map fst fs))"
| "convertible (JArr xs) = list_all (\<lambda>x. x = JNull \<or> convertible x) xs"
| "convertible v = True"

definition ToString :: "host \<Rightarrow> json \<Rightarrow> string option" where
  "ToString h v = (if convertible v then Some (js_String h v) else None)"

text \<open>
  \<^verbatim>\<open>toLowerCase\<close> on the code units 0 to 255: the letters A to Z and the capital letters
  of Latin-1 (0xC0 to 0xDE without the multiplication sign 0xD7) move up by 32.
\<close>

definition lower_char :: "char \<Rightarrow> char" where
  "lower_char c =
     (let n = of_char c :: nat
      in if (65 \<le> n \<and> n \<le> 90) \<or> (192 \<le> n \<and> n \<le> 222 \<and> n \<noteq> 215)
         then char_of (n + 32) else c)"

definition toLowerCase :: "string \<Rightarrow> string" where
  "toLowerCase s = map lower_char s"

text \<open>\<^verbatim>\<open>s.includes(t)\<close>: \<open>t\<close> occurs in \<open>s\<close> as a contiguous run.\<close>

fun startsWith :: "string \<Rightarrow> string \<Rightarrow> bool" where
  "startsWith s [] = True"
| "startsWith [] (c # t) = False"
| "startsWith (a # s) (c # t) = (a = c \<and> startsWith s t)"

fun js_includes :: "string \<Rightarrow> string \<Rightarrow> bool" where
  "js_includes [] t = (t = [])"
| "js_includes (a # s) t = (startsWith (a # s) t \<or> js_includes s t)"

text \<open>
  A host whose engine has nothing to offer, for evaluating the program on inputs that do
  not reach the engine: no regular expression compiles, and no string is a number, a URL,
  a date or a JSON text.
\<close>

definition bare_host :: host where
  "bare_host =
     \<lparr> number_text = (\<lambda>q. ''?''),
       string_to_number = (\<lambda>s. None),
       quotient_is_integer = (\<lambda>x y. False),
       regexp_compiles = (\<lambda>p. False),
       regexp_test = (\<lambda>p i s. False),
       url_parses = (\<lambda>s. False),
       date_parses = (\<lambda>s. False),
       json_parse = (\<lambda>s. None) \<rparr>"

section \<open>Metrics: countNodes, getMaxDepth, getTypeDistribution\<close>

text \<open>
  \<^verbatim>\<open>countNodes\<close>: the body of the \<^verbatim>\<open>while (stack.length > 0)\<close> loop, with the counter
  as second argument.
\<close>

function countNodes_loop :: "json list \<Rightarrow> nat \<Rightarrow> nat" where
  "countNodes_loop [] count = count"
| "countNodes_loop (current # stack) count =
     (if js_typeof current = ''object'' \<and> current \<noteq> JNull then
        (if isArray current
         then countNodes_loop (push_all (elements current) stack) (count + 1)
         else countNodes_loop (push_all (object_values current) stack) (count + 1))
      else countNodes_loop stack (count + 1))"
  by pat_completeness auto
termination
  by (relation "measure (\<lambda>(stack, count). stack_nodes stack)")
     (simp_all add: stack_nodes_children stack_nodes_pop)

definition countNodes :: "json \<Rightarrow> nat" where
  "countNodes data = countNodes_loop [data] 0"

text \<open>\<^verbatim>\<open>getMaxDepth\<close>: the stack holds pairs of a value and its depth.\<close>

function getMaxDepth_loop :: "(json \<times> nat) list \<Rightarrow> nat \<Rightarrow> nat" where
  "getMaxDepth_loop [] maxDepth = maxDepth"
| "getMaxDepth_loop ((current, depth) # stack) maxDepth =
     (if js_typeof current = ''object'' \<and> current \<noteq> JNull then
        (if isArray current
         then getMaxDepth_loop
                (push_all (map (\<lambda>item. (item, depth + 1)) (elements current)) stack)
                (max maxDepth depth)
         else getMaxDepth_loop
                (push_all (map (\<lambda>v. (v, depth + 1)) (object_values current)) stack)
                (max maxDepth depth))
      else getMaxDepth_loop stack (max maxDepth depth))"
  by pat_completeness auto
termination
  by (relation "measure (\<lambda>(stack, maxDepth). stack_nodes (map fst stack))")
     (simp_all add: fst_push_all stack_nodes_children stack_nodes_pop)

definition getMaxDepth :: "json \<Rightarrow> nat" where
  "getMaxDepth data = getMaxDepth_loop [(data, 0)] 0"

text \<open>
  \<^verbatim>\<open>getTypeDistribution\<close>: the record \<^verbatim>\<open>distribution\<close> is an association list in
  insertion order; \<^verbatim>\<open>distribution[type] = (distribution[type] || 0) + 1\<close> overwrites the
  entry of \<^verbatim>\<open>type\<close> or adds one at the end.
\<close>

definition plain_type :: "json \<Rightarrow> string" where
  "plain_type current =
     (if current = JNull then ''null''
      else if isArray current then ''array'' else js_typeof current)"

definition bump :: "string \<Rightarrow> (string \<times> nat) list \<Rightarrow> (string \<times> nat) list" where
  "bump type distribution =
     AList.update type
       ((case map_of distribution type of None \<Rightarrow> 0 | Some c \<Rightarrow> c) + 1) distribution"

function getTypeDistribution_loop ::
  "json list \<Rightarrow> (string \<times> nat) list \<Rightarrow> (string \<times> nat) list" where
  "getTypeDistribution_loop [] distribution = distribution"
| "getTypeDistribution_loop (current # stack) distribution =
     (if js_typeof current = ''object'' \<and> current \<noteq> JNull then
        (if isArray current
         then getTypeDistribution_loop (push_all (elements current) stack)
                (bump (plain_type current) distribution)
         else getTypeDistribution_loop (push_all (object_values current) stack)
                (bump (plain_type current) distribution))
      else getTypeDistribution_loop stack (bump (plain_type current) distribution))"
  by pat_completeness auto
termination
  by (relation "measure (\<lambda>(stack, distribution). stack_nodes stack)")
     (simp_all add: stack_nodes_children stack_nodes_pop)

definition getTypeDistribution :: "json \<Rightarrow> (string \<times> nat) list" where
  "getTypeDistribution data = getTypeDistribution_loop [data] []"

text \<open>The fields of \<^verbatim>\<open>ParseMetrics\<close> that are computed from the parsed value.\<close>

record tree_metrics =
  nodeCount :: nat
  maxDepth :: nat
  typeDistribution :: "(string \<times> nat) list"

definition collectMetrics :: "json \<Rightarrow> tree_metrics" where
  "collectMetrics data =
     \<lparr> nodeCount = countNodes data,
       maxDepth = getMaxDepth data,
       typeDistribution = getTypeDistribution data \<rparr>"

section \<open>Search: performSearch\<close>

datatype result_type = Key | Value

record SearchResult =
  result_path :: string
  result_type :: result_type
  result_text :: string
  position :: nat

type_synonym search_stack = "(json \<times> string list) list"

text \<open>
  The callback of \<^verbatim>\<open>Object.entries(value).forEach\<close>: a result for the key when it
  contains the term, then the property value goes on the stack. The state is the pair of
  \<^verbatim>\<open>results\<close> and \<^verbatim>\<open>stack\<close>.
\<close>

definition visit_entry ::
  "bool \<Rightarrow> string \<Rightarrow> string list \<Rightarrow> string \<times> json \<Rightarrow>
   SearchResult list \<times> search_stack \<Rightarrow> SearchResult list \<times> search_stack" where
  "visit_entry caseSensitive searchTerm currentPath entry state =
     (case (entry, state) of ((key, val), (results, stack)) \<Rightarrow>
        let keyToSearch = (if caseSensitive then key else toLowerCase key);
            results' =
              (if js_includes keyToSearch searchTerm
               then results @
                    [\<lparr> result_path = join (currentPath @ [key]) ''.'',
                       result_type = Key, result_text = key, position = length results \<rparr>]
               else results)
        in (results', (val, currentPath @ [key]) # stack))"

text \<open>The callback of \<^verbatim>\<open>value.forEach((item, index) => stack.push(...))\<close>.\<close>

definition visit_item :: "string list \<Rightarrow> json \<times> nat \<Rightarrow> search_stack \<Rightarrow> search_stack" where
  "visit_item currentPath entry stack =
     (case entry of (item, index) \<Rightarrow> (item, currentPath @ [dec index]) # stack)"

definition indexed :: "'a list \<Rightarrow> ('a \<times> nat) list" where
  "indexed xs = zip xs [0 ..< length xs]"

fun object_entries :: "json \<Rightarrow> (string \<times> json) list" where
  "object_entries (JObj fs) = fs"
| "object_entries _ = []"

lemma fold_visit_item:
  "fold (visit_item p) ixs stack = push_all (map (\<lambda>(item, i). (item, p @ [dec i])) ixs) stack"
  by (induction ixs arbitrary: stack) (auto simp: visit_item_def push_all_def)

lemma fold_visit_entry_stack:
  "snd (fold (visit_entry cs t p) fs (results, stack)) =
   push_all (map (\<lambda>(k, v). (v, p @ [k])) fs) stack"
  by (induction fs arbitrary: results stack)
     (auto simp: visit_entry_def push_all_def Let_def)

lemma fst_fold_visit_item:
  "map fst (fold (visit_item p) (indexed xs) stack) = push_all xs (map fst stack)"
proof -
  have "map fst (map (\<lambda>(item, i). (item, p @ [dec i])) ixs) = map fst ixs"
    for ixs :: "(json \<times> nat) list"
    by (induction ixs) auto
  then show ?thesis
    by (simp add: fold_visit_item push_all_def rev_map [symmetric] indexed_def
        del: map_map)
qed

lemma fst_fold_visit_entry:
  "fold (visit_entry cs t p) (object_entries val) (results, stack) = (results', stack') \<Longrightarrow>
   map fst stack' = push_all (object_values val) (map fst stack)"
proof -
  assume "fold (visit_entry cs t p) (object_entries val) (results, stack) = (results', stack')"
  then have "stack' = push_all (map (\<lambda>(k, v). (v, p @ [k])) (object_entries val)) stack"
    using fold_visit_entry_stack [of cs t p "object_entries val" results stack] by simp
  moreover have "map fst (map (\<lambda>(k, v). (v, p @ [k])) fs) = map snd fs"
    for fs :: "(string \<times> json) list"
    by (induction fs) auto
  moreover have "map snd (object_entries val) = object_values val"
    by (cases val) simp_all
  ultimately show ?thesis
    by (simp add: push_all_def rev_map [symmetric] del: map_map)
qed

text \<open>
  The \<^verbatim>\<open>while\<close> loop of \<^verbatim>\<open>performSearch\<close>. The set \<^verbatim>\<open>visited\<close> holds container
  instances; in a parsed value no instance occurs twice, so \<^verbatim>\<open>visited.has(value)\<close> is
  false each time and the model leaves the set out.
\<close>

function performSearch_loop ::
  "host \<Rightarrow> bool \<Rightarrow> string \<Rightarrow> search_stack \<Rightarrow> SearchResult list \<Rightarrow> SearchResult list"
  where
  "performSearch_loop h caseSensitive searchTerm [] results = results"
| "performSearch_loop h caseSensitive searchTerm ((val, currentPath) # stack) results =
     (if js_typeof val = ''object'' \<and> val \<noteq> JNull then
        (if isArray val
         then performSearch_loop h caseSensitive searchTerm
                (fold (visit_item currentPath) (indexed (elements val)) stack) results
         else (case fold (visit_entry caseSensitive searchTerm currentPath)
                      (object_entries val) (results, stack) of
                 (results', stack') \<Rightarrow>
                   performSearch_loop h caseSensitive searchTerm stack' results'))
      else
        (let valueStr = (if caseSensitive then js_String h val
                         else toLowerCase (js_String h val))
         in if js_includes valueStr searchTerm
            then performSearch_loop h caseSensitive searchTerm stack
                   (results @
                    [\<lparr> result_path = join currentPath ''.'', result_type = Value,
                       result_text = js_String h val, position = length results \<rparr>])
            else performSearch_loop h caseSensitive searchTerm stack results))"
  by pat_completeness auto
termination
  apply (relation "measure (\<lambda>(h, cs, t, stack, results). stack_nodes (map fst stack))")
     apply (simp_all add: fst_fold_visit_item stack_nodes_children stack_nodes_pop)
  apply (drule sym)
  apply (drule fst_fold_visit_entry)
  apply (simp add: stack_nodes_children)
  done

text \<open>\<^verbatim>\<open>performSearch\<close>: an empty term gives no result; otherwise the loop runs from the root.\<close>

definition performSearch :: "host \<Rightarrow> bool \<Rightarrow> string \<Rightarrow> json \<Rightarrow> SearchResult list" where
  "performSearch h caseSensitive term data =
     (if term = [] then []
      else performSearch_loop h caseSensitive
             (if caseSensitive then term else toLowerCase term) [(data, [])] [])"

section \<open>The nodes of a value and their search paths\<close>

text \<open>
  To state what the search finds: the children of a node with the paths under which the
  loop pushes them, all nodes of a value with their paths, and the results a node gives
  rise to (without their position in the result list).
\<close>

fun child_entries :: "string list \<Rightarrow> json \<Rightarrow> search_stack" where
  "child_entries p (JArr xs) = map (\<lambda>(item, i). (item, p @ [dec i])) (indexed xs)"
| "child_entries p (JObj fs) = map (\<lambda>(k, v). (v, p @ [k])) fs"
| "child_entries p _ = []"

lemma child_entries_nodes: "(c, q) \<in> set (child_entries p v) \<Longrightarrow> nodes c < nodes v"
proof (cases v)
  case (JArr xs)
  assume "(c, q) \<in> set (child_entries p v)"
  with JArr have "c \<in> set xs"
    by (auto simp: indexed_def dest: set_zip_leftD)
  then have "nodes c \<le> sum_list (map nodes xs)"
    by (simp add: member_le_sum_list)
  with JArr show ?thesis by simp
next
  case (JObj fs)
  assume "(c, q) \<in> set (child_entries p v)"
  with JObj have "nodes c \<in> set (map (\<lambda>kv. nodes (snd kv)) fs)"
    by force
  then have "nodes c \<le> sum_list (map (\<lambda>kv. nodes (snd kv)) fs)"
    by (simp add: member_le_sum_list)
  with JObj show ?thesis by simp
qed simp_all

function tree_nodes :: "string list \<Rightarrow> json \<Rightarrow> search_stack" where
  "tree_nodes p v = (v, p) # concat (map (\<lambda>(c, q). tree_nodes q c) (child_entries p v))"
  by pat_completeness auto
termination
  by (relation "measure (\<lambda>(p, v). nodes v)") (auto dest: child_entries_nodes)

declare tree_nodes.simps [simp del]

definition is_container :: "json \<Rightarrow> bool" where
  "is_container v = (js_typeof v = ''object'' \<and> v \<noteq> JNull)"

definition matches :: "bool \<Rightarrow> string \<Rightarrow> string \<Rightarrow> bool" where
  "matches cs s t = js_includes (if cs then s else toLowerCase s) t"

definition hit :: "SearchResult \<Rightarrow> string \<times> result_type \<times> string" where
  "hit r = (result_path r, result_type r, result_text r)"

definition key_hits ::
  "bool \<Rightarrow> string \<Rightarrow> string list \<Rightarrow> json \<Rightarrow> (string \<times> result_type \<times> string) set" where
  "key_hits cs t p v = {(join (p @ [k]) ''.'', Key, k) | k. k \<in> set (object_keys v) \<and> matches cs k t}"

definition node_hits ::
  "host \<Rightarrow> bool \<Rightarrow> string \<Rightarrow> json \<times> string list \<Rightarrow> (string \<times> result_type \<times> string) set" where
  "node_hits h cs t n =
     (case n of (v, p) \<Rightarrow>
        if is_container v then key_hits cs t p v
        else if matches cs (js_String h v) t then {(join p ''.'', Value, js_String h v)} else {})"

definition subtree_hits ::
  "host \<Rightarrow> bool \<Rightarrow> string \<Rightarrow> json \<times> string list \<Rightarrow> (string \<times> result_type \<times> string) set" where
  "subtree_hits h cs t e = (\<Union>n \<in> set (tree_nodes (snd e) (fst e)). node_hits h cs t n)"

section \<open>Schema validation: what validateAgainstSchema reads and compares\<close>

text \<open>
  The schema is a parsed value. The value under validation is one too when the validator
  is entered, but the properties check goes from an object to \<^verbatim>\<open>data[prop]\<close> for every
  \<^verbatim>\<open>prop in data\<close>, and both see what the object inherits from \<^verbatim>\<open>Object.prototype\<close>:
  eleven built-in functions and the accessor \<^verbatim>\<open>__proto__\<close>, whose value is
  \<^verbatim>\<open>Object.prototype\<close> itself. So the validator also runs on these: \<open>Builtin name\<close>
  is the function that \<^verbatim>\<open>Object.prototype\<close> has under that name.
\<close>

datatype jsvalue =
    Json json
  | Builtin string
  | ObjectPrototype

definition object_prototype_functions :: "string list" where
  "object_prototype_functions =
     [''constructor'', ''__defineGetter__'', ''__defineSetter__'', ''hasOwnProperty'',
      ''__lookupGetter__'', ''__lookupSetter__'', ''isPrototypeOf'', ''propertyIsEnumerable'',
      ''toString'', ''valueOf'', ''toLocaleString'']"

definition object_prototype_names :: "string list" where
  "object_prototype_names = object_prototype_functions @ [''__proto__'']"

text \<open>
  \<^verbatim>\<open>ValidationError\<close>. The field \<^verbatim>\<open>value\<close> is \<open>None\<close> where the program stores
  \<^verbatim>\<open>undefined\<close>. The field \<^verbatim>\<open>path\<close> is a string everywhere but in the error of a
  missing required property at the root, where it is the entry of \<^verbatim>\<open>required\<close> as it
  stands in the schema.
\<close>

record ValidationError =
  error_path :: json
  error_message :: string
  error_value :: "jsvalue option"

text \<open>
  A property read \<^verbatim>\<open>schema.name\<close>: \<open>None\<close> is \<^verbatim>\<open>undefined\<close>. Arrays, strings,
  numbers and booleans have none of the properties that the validator reads, and none of
  these is a property of \<^verbatim>\<open>Object.prototype\<close>. Reading a property of \<^verbatim>\<open>null\<close>
  throws, which is the first case of \<open>validateAgainstSchema\<close> below.
\<close>

definition get_prop :: "json \<Rightarrow> string \<Rightarrow> json option" where
  "get_prop schema name = (case schema of JObj fs \<Rightarrow> map_of fs name | _ \<Rightarrow> None)"

text \<open>\<^verbatim>\<open>schema.name\<close> used as a condition, and \<^verbatim>\<open>schema.name && Array.isArray(schema.name)\<close>.\<close>

definition truthy_prop :: "json \<Rightarrow> string \<Rightarrow> json option" where
  "truthy_prop schema name =
     (case get_prop schema name of
        None \<Rightarrow> None
      | Some v \<Rightarrow> if truthy v then Some v else None)"

definition array_prop :: "json \<Rightarrow> string \<Rightarrow> json list option" where
  "array_prop schema name =
     (case get_prop schema name of
        Some (JArr xs) \<Rightarrow> Some xs
      | _ \<Rightarrow> None)"

text \<open>
  \<^verbatim>\<open>typeof data\<close>, \<^verbatim>\<open>Array.isArray(data)\<close> and
  \<^verbatim>\<open>typeof data === "object" && data !== null && !Array.isArray(data)\<close>.
\<close>

fun value_typeof :: "jsvalue \<Rightarrow> string" where
  "value_typeof (Json v) = js_typeof v"
| "value_typeof (Builtin name) = ''function''"
| "value_typeof ObjectPrototype = ''object''"

fun value_isArray :: "jsvalue \<Rightarrow> bool" where
  "value_isArray (Json v) = isArray v"
| "value_isArray _ = False"

definition is_plain_object :: "jsvalue \<Rightarrow> bool" where
  "is_plain_object data =
     (value_typeof data = ''object'' \<and> data \<noteq> Json JNull \<and> \<not> value_isArray data)"

text \<open>
  The elements of \<^verbatim>\<open>data\<close> when it is an array, and \<^verbatim>\<open>Object.keys(data)\<close> when it is
  a plain object: the properties of \<^verbatim>\<open>Object.prototype\<close> are not enumerable.
\<close>

fun value_elements :: "jsvalue \<Rightarrow> json list" where
  "value_elements (Json v) = elements v"
| "value_elements _ = []"

fun value_keys :: "jsvalue \<Rightarrow> string list" where
  "value_keys (Json v) = object_keys v"
| "value_keys _ = []"

text \<open>
  \<^verbatim>\<open>prop in data\<close> for a plain object: the name is a key of the object or a property of
  \<^verbatim>\<open>Object.prototype\<close>.
\<close>

definition has_property :: "string \<Rightarrow> jsvalue \<Rightarrow> bool" where
  "has_property name data =
     (name \<in> set (value_keys data) \<or> name \<in> set object_prototype_names)"

text \<open>
  \<^verbatim>\<open>data[prop]\<close> for a plain object: the object's own property, else the property of
  \<^verbatim>\<open>Object.prototype\<close>, else \<^verbatim>\<open>undefined\<close>, which is \<open>None\<close>. The accessor
  \<^verbatim>\<open>__proto__\<close> gives the prototype of the object on which it is read, and the prototype
  of \<^verbatim>\<open>Object.prototype\<close> is \<^verbatim>\<open>null\<close>.
\<close>

definition get_member :: "jsvalue \<Rightarrow> string \<Rightarrow> jsvalue option" where
  "get_member data name =
     (case (case data of Json v \<Rightarrow> get_prop v name | _ \<Rightarrow> None) of
        Some v \<Rightarrow> Some (Json v)
      | None \<Rightarrow>
          if name = ''__proto__'' then
            Some (if data = ObjectPrototype then Json JNull else ObjectPrototype)
          else if name \<in> set object_prototype_functions then Some (Builtin name)
          else None)"

text \<open>
  \<^verbatim>\<open>Object.entries\<close> of a truthy value: the properties of an object, the elements of an
  array under their indices, the code units of a string under their indices, and nothing
  for a number or \<^verbatim>\<open>true\<close>.
\<close>

fun js_entries :: "json \<Rightarrow> (string \<times> json) list" where
  "js_entries (JObj fs) = fs"
| "js_entries (JArr xs) = map (\<lambda>(x, i). (dec i, x)) (indexed xs)"
| "js_entries (JStr s) = map (\<lambda>(c, i). (dec i, JStr [c])) (indexed s)"
| "js_entries _ = []"

text \<open>\<^verbatim>\<open>getJsonType\<close>.\<close>

fun getJsonType :: "jsvalue \<Rightarrow> string" where
  "getJsonType (Json JNull) = ''null''"
| "getJsonType (Json (JArr xs)) = ''array''"
| "getJsonType (Json (JNum n)) = (if isInteger n then ''integer'' else ''number'')"
| "getJsonType v = value_typeof v"

text \<open>
  Comparison of numbers, and the coercion \<^verbatim>\<open>ToNumber\<close> that \<^verbatim>\<open><\<close>, \<^verbatim>\<open>>\<close>,
  \<^verbatim>\<open><=\<close>, \<^verbatim>\<open>>=\<close> and \<^verbatim>\<open>/\<close> apply to a schema value when the other operand is a
  number. The result is a number, \<^verbatim>\<open>NaN\<close>, or the \<^verbatim>\<open>TypeError\<close> of an object that
  cannot be converted. An array is converted through its string form; the string form of
  an object is not a number. Every comparison with \<^verbatim>\<open>NaN\<close> is false; a comparison
  whose coercion throws has no result, which is \<open>None\<close>.
\<close>

fun jnum_less :: "jnum \<Rightarrow> jnum \<Rightarrow> bool" where
  "jnum_less (Fin a) (Fin b) = (a < b)"
| "jnum_less (Fin a) PosInf = True"
| "jnum_less (Fin a) NegInf = False"
| "jnum_less PosInf y = False"
| "jnum_less NegInf y = (y \<noteq> NegInf)"

datatype coerced = IsNumber jnum | IsNaN | TypeError

definition string_number :: "host \<Rightarrow> string \<Rightarrow> coerced" where
  "string_number h s = (case string_to_number h s of None \<Rightarrow> IsNaN | Some n \<Rightarrow> IsNumber n)"

fun to_number :: "host \<Rightarrow> json \<Rightarrow> coerced" where
  "to_number h JNull = IsNumber (Fin 0)"
| "to_number h (JBool b) = IsNumber (Fin (if b then 1 else 0))"
| "to_number h (JNum n) = IsNumber n"
| "to_number h (JStr s) = string_number h s"
| "to_number h (JArr xs) =
     (case ToString h (JArr xs) of None \<Rightarrow> TypeError | Some s \<Rightarrow> string_number h s)"
| "to_number h (JObj fs) =
     (case ToString h (JObj fs) of None \<Rightarrow> TypeError | Some s \<Rightarrow> IsNaN)"

definition compare_to :: "host \<Rightarrow> (jnum \<Rightarrow> bool) \<Rightarrow> json \<Rightarrow> bool option" where
  "compare_to h holds v =
     (case to_number h v of
        TypeError \<Rightarrow> None
      | IsNaN \<Rightarrow> Some False
      | IsNumber y \<Rightarrow> Some (holds y))"

definition js_lt :: "host \<Rightarrow> jnum \<Rightarrow> json \<Rightarrow> bool option" where
  "js_lt h x v = compare_to h (\<lambda>y. jnum_less x y) v"

definition js_gt :: "host \<Rightarrow> jnum \<Rightarrow> json \<Rightarrow> bool option" where
  "js_gt h x v = compare_to h (\<lambda>y. jnum_less y x) v"

definition js_le :: "host \<Rightarrow> jnum \<Rightarrow> json \<Rightarrow> bool option" where
  "js_le h x v = compare_to h (\<lambda>y. x = y \<or> jnum_less x y) v"

definition js_ge :: "host \<Rightarrow> jnum \<Rightarrow> json \<Rightarrow> bool option" where
  "js_ge h x v = compare_to h (\<lambda>y. x = y \<or> jnum_less y x) v"

text \<open>The \<^verbatim>\<open>length\<close> of an array or a string, as a number.\<close>

definition length_number :: "'a list \<Rightarrow> jnum" where
  "length_number xs = Fin (of_nat (length xs))"

text \<open>
  \<^verbatim>\<open>JSON.stringify\<close> of a parsed value. A string is quoted with the escapes of the
  standard; a number that is not finite is \<^verbatim>\<open>null\<close>; an object lists its properties in
  its own order.
\<close>

definition quote_char :: "char \<Rightarrow> string" where
  "quote_char c =
     (let n = of_char c :: nat in
      if c = CHR 0x22 then [CHR 0x5C, CHR 0x22]
      else if c = CHR 0x5C then [CHR 0x5C, CHR 0x5C]
      else if n = 8 then [CHR 0x5C, CHR ''b'']
      else if n = 12 then [CHR 0x5C, CHR ''f'']
      else if n = 10 then [CHR 0x5C, CHR ''n'']
      else if n = 13 then [CHR 0x5C, CHR ''r'']
      else if n = 9 then [CHR 0x5C, CHR ''t'']
      else if n < 32 then
        [CHR 0x5C, CHR ''u'', CHR ''0'', CHR ''0'',
         ''0123456789abcdef'' ! (n div 16), ''0123456789abcdef'' ! (n mod 16)]
      else [c])"

definition quote :: "string \<Rightarrow> string" where
  "quote s = [CHR 0x22] @ concat (map quote_char s) @ [CHR 0x22]"

fun JSON_stringify :: "host \<Rightarrow> json \<Rightarrow> string" where
  "JSON_stringify h JNull = ''null''"
| "JSON_stringify h (JBool b) = (if b then ''true'' else ''false'')"
| "JSON_stringify h (JNum n) = (if isFinite n then number_string h n else ''null'')"
| "JSON_stringify h (JStr s) = quote s"
| "JSON_stringify h (JArr xs) = ''['' @ join (map (JSON_stringify h) xs) '','' @ '']''"
| "JSON_stringify h (JObj fs) =
     ''{'' @ join (map (\<lambda>kv. quote (fst kv) @ '':'' @ JSON_stringify h (snd kv)) fs) '',''
     @ ''}''"

text \<open>
  \<^verbatim>\<open>JSON.stringify(data)\<close>: \<^verbatim>\<open>undefined\<close>, which is \<open>None\<close>, for a function, and
  \<^verbatim>\<open>{}\<close> for \<^verbatim>\<open>Object.prototype\<close>, which has no enumerable property. In a template
  \<^verbatim>\<open>undefined\<close> is spelled out.
\<close>

fun value_stringify :: "host \<Rightarrow> jsvalue \<Rightarrow> string option" where
  "value_stringify h (Json v) = Some (JSON_stringify h v)"
| "value_stringify h (Builtin name) = None"
| "value_stringify h ObjectPrototype = Some ''{}''"

fun in_template :: "string option \<Rightarrow> string" where
  "in_template None = ''undefined''"
| "in_template (Some s) = s"

text \<open>
  The regular expressions of \<^verbatim>\<open>formatValidators\<close>, written out on the code units
  0 to 255. \<^verbatim>\<open>\s\<close> is one of the code units 9 to 13, 32 and 160.

  \<^verbatim>\<open>/^[^\s@]+@[^\s@]+\.[^\s@]+$/\<close>: no white space, one \<^verbatim>\<open>@\<close>, something before it,
  and after it a dot that is neither first nor last.
\<close>

definition is_space :: "char \<Rightarrow> bool" where
  "is_space c = (let n = of_char c :: nat in (9 \<le> n \<and> n \<le> 13) \<or> n = 32 \<or> n = 160)"

definition email_shape :: "string \<Rightarrow> bool" where
  "email_shape s =
     (let ok = (\<lambda>c. \<not> is_space c \<and> c \<noteq> CHR ''@'');
          local = takeWhile (\<lambda>c. c \<noteq> CHR ''@'') s;
          rest = dropWhile (\<lambda>c. c \<noteq> CHR ''@'') s
      in case rest of
           [] \<Rightarrow> False
         | _ # domain \<Rightarrow>
             local \<noteq> [] \<and> list_all ok local \<and> list_all ok domain \<and>
             list_ex (\<lambda>i. domain ! i = CHR ''.'') [1 ..< length domain - 1])"

text \<open>\<^verbatim>\<open>/^\d{4}-\d{2}-\d{2}$/\<close>.\<close>

definition is_digit :: "char \<Rightarrow> bool" where
  "is_digit c = (let n = of_char c :: nat in 48 \<le> n \<and> n \<le> 57)"

definition date_shape :: "string \<Rightarrow> bool" where
  "date_shape s =
     (length s = 10 \<and> s ! 4 = CHR ''-'' \<and> s ! 7 = CHR ''-'' \<and>
      list_all (\<lambda>i. is_digit (s ! i)) [0, 1, 2, 3, 5, 6, 8, 9])"

text \<open>
  \<^verbatim>\<open>/^[0-9a-f]{8}-[0-9a-f]{4}-[1-5][0-9a-f]{3}-[89ab][0-9a-f]{3}-[0-9a-f]{12}$/i\<close>.
\<close>

definition is_hex :: "char \<Rightarrow> bool" where
  "is_hex c =
     (let n = of_char c :: nat
      in (48 \<le> n \<and> n \<le> 57) \<or> (97 \<le> n \<and> n \<le> 102) \<or> (65 \<le> n \<and> n \<le> 70))"

definition uuid_shape :: "string \<Rightarrow> bool" where
  "uuid_shape s =
     (length s = 36 \<and>
      list_all (\<lambda>i. s ! i = CHR ''-'') [8, 13, 18, 23] \<and>
      s ! 14 \<in> set ''12345'' \<and>
      s ! 19 \<in> set ''89abAB'' \<and>
      list_all (\<lambda>i. is_hex (s ! i))
        ([0 ..< 8] @ [9 ..< 13] @ [15 ..< 18] @ [20 ..< 23] @ [24 ..< 36]))"

text \<open>
  \<^verbatim>\<open>formatValidators[schema.format]\<close> called on the string. The table is an object
  literal with five functions, and under every other name the lookup goes on to
  \<^verbatim>\<open>Object.prototype\<close>. The function found there is called with the string as its
  argument and without a receiver, in strict code: \<^verbatim>\<open>constructor\<close> (which is
  \<^verbatim>\<open>Object\<close>) returns a wrapper object and \<^verbatim>\<open>toString\<close> returns
  \<^verbatim>\<open>[object Undefined]\<close>, both truthy; \<^verbatim>\<open>isPrototypeOf\<close> returns \<^verbatim>\<open>false\<close> for an
  argument that is not an object; the other eight convert the missing receiver to an object
  and throw. Under \<^verbatim>\<open>__proto__\<close> the lookup gives \<^verbatim>\<open>Object.prototype\<close>, and calling it
  throws.
\<close>

datatype validator_result = NoValidator | Returned bool | ValidatorThrows

definition format_valid :: "host \<Rightarrow> string \<Rightarrow> string \<Rightarrow> validator_result" where
  "format_valid h format data =
     (if format = ''email'' then Returned (email_shape data)
      else if format = ''uri'' then Returned (url_parses h data)
      else if format = ''date'' then Returned (date_shape data \<and> date_parses h data)
      else if format = ''date-time'' then Returned (date_parses h data)
      else if format = ''uuid'' then Returned (uuid_shape data)
      else if format = ''constructor'' \<or> format = ''toString'' then Returned True
      else if format = ''isPrototypeOf'' then Returned False
      else if format \<in> set object_prototype_names then ValidatorThrows
      else NoValidator)"

section \<open>Schema validation: the checks of validateAgainstSchema\<close>

text \<open>
  The list \<^verbatim>\<open>errors\<close> is shared by all calls and only grows, so each check takes the
  list and returns it with its own errors appended. A call ends normally or by a
  \<^verbatim>\<open>TypeError\<close>: of reading a property of a \<^verbatim>\<open>null\<close> schema, of converting a
  schema value that cannot be converted, or of the call made for a format that is named
  like a property of \<^verbatim>\<open>Object.prototype\<close>. In both cases the errors pushed so far
  stay in the list.
\<close>

datatype outcome = Normal "ValidationError list" | Thrown "ValidationError list"

fun outcome_errors :: "outcome \<Rightarrow> ValidationError list" where
  "outcome_errors (Normal errors) = errors"
| "outcome_errors (Thrown errors) = errors"

text \<open>Sequencing: what follows a statement runs only when the statement did not throw.\<close>

fun and_then :: "outcome \<Rightarrow> (ValidationError list \<Rightarrow> outcome) \<Rightarrow> outcome" where
  "and_then (Normal errors) f = f errors"
| "and_then (Thrown errors) f = Thrown errors"

lemma and_then_cong [fundef_cong]:
  "m = m' \<Longrightarrow> (\<And>errors. m' = Normal errors \<Longrightarrow> f errors = f' errors) \<Longrightarrow>
   and_then m f = and_then m' f'"
  by (cases m') simp_all

text \<open>\<^verbatim>\<open>xs.forEach(callback)\<close> where the callback pushes errors and may throw.\<close>

fun forEach ::
  "('a \<Rightarrow> ValidationError list \<Rightarrow> outcome) \<Rightarrow> 'a list \<Rightarrow> ValidationError list \<Rightarrow> outcome"
  where
  "forEach f [] errors = Normal errors"
| "forEach f (x # xs) errors = and_then (f x errors) (forEach f xs)"

lemma forEach_cong [fundef_cong]:
  "xs = ys \<Longrightarrow> errors = errors' \<Longrightarrow>
   (\<And>x es. x \<in> set ys \<Longrightarrow> f x es = g x es) \<Longrightarrow>
   forEach f xs errors = forEach g ys errors'"
proof (induction ys arbitrary: xs errors errors')
  case Nil
  then show ?case by simp
next
  case (Cons y ys)
  from Cons.prems have "f y errors' = g y errors'"
    by simp
  moreover have "forEach f ys es = forEach g ys es" for es
    using Cons.IH [OF refl refl] Cons.prems(3) by simp
  ultimately show ?case
    using Cons.prems(1,2) by (cases "g y errors'") simp_all
qed

text \<open>
  \<^verbatim>\<open>subschemas.filter(...)\<close> of \<^verbatim>\<open>oneOf\<close> and \<^verbatim>\<open>anyOf\<close>: the callback validates
  against a subschema with a fresh list \<^verbatim>\<open>subErrors\<close> and keeps the subschema when
  the list stays empty. \<open>None\<close> when a callback throws.
\<close>

fun filter_valid :: "('a \<Rightarrow> outcome) \<Rightarrow> 'a list \<Rightarrow> 'a list option" where
  "filter_valid run [] = Some []"
| "filter_valid run (subSchema # rest) =
     (case run subSchema of
        Thrown subErrors \<Rightarrow> None
      | Normal subErrors \<Rightarrow>
          (case filter_valid run rest of
             None \<Rightarrow> None
           | Some validSchemas \<Rightarrow>
               Some (if subErrors = [] then subSchema # validSchemas else validSchemas)))"

lemma filter_valid_eq:
  "(\<And>x. x \<in> set ys \<Longrightarrow> f x = g x) \<Longrightarrow> filter_valid f ys = filter_valid g ys"
  by (induction ys) (simp_all cong: outcome.case_cong)

lemma filter_valid_cong [fundef_cong]:
  "xs = ys \<Longrightarrow> (\<And>x. x \<in> set ys \<Longrightarrow> f x = g x) \<Longrightarrow> filter_valid f xs = filter_valid g ys"
  using filter_valid_eq [of ys f g] by simp

text \<open>
  A statement under a condition that compares with a schema value: the comparison may
  throw. And \<^verbatim>\<open>errors.push\<close> of an error whose message is a template with a schema
  value in it: the template is evaluated before the push, so when the conversion throws
  nothing is pushed.
\<close>

definition when_true :: "bool option \<Rightarrow> ValidationError list \<Rightarrow> outcome \<Rightarrow> outcome" where
  "when_true condition errors statement =
     (case condition of
        None \<Rightarrow> Thrown errors
      | Some holds \<Rightarrow> if holds then statement else Normal errors)"

definition push_error ::
  "ValidationError list \<Rightarrow> string option \<Rightarrow> (string \<Rightarrow> ValidationError) \<Rightarrow> outcome" where
  "push_error errors converted error =
     (case converted of
        None \<Rightarrow> Thrown errors
      | Some s \<Rightarrow> Normal (errors @ [error s]))"

text \<open>\<^verbatim>\<open>path ? `${path}.${prop}` : prop\<close> and \<^verbatim>\<open>path ? `${path}[${index}]` : `[${index}]`\<close>.\<close>

definition property_path :: "string \<Rightarrow> string \<Rightarrow> string" where
  "property_path path name = (if path \<noteq> [] then path @ ''.'' @ name else name)"

definition item_path :: "string \<Rightarrow> nat \<Rightarrow> string" where
  "item_path path index =
     (if path \<noteq> [] then path @ ''['' @ dec index @ '']'' else ''['' @ dec index @ '']'')"

subsection \<open>Basic type validation\<close>

text \<open>
  The block under \<^verbatim>\<open>if (schema.type)\<close>: \<open>None\<close> when the call goes on, and otherwise
  how the call ends, which is by the \<^verbatim>\<open>return\<close> after the push or by the
  \<^verbatim>\<open>TypeError\<close> of the template \<^verbatim>\<open>`Expected type ${expectedType}, ...`\<close>. The other
  templates hold the classified type and the value, which is a number there.
\<close>

definition check_type ::
  "host \<Rightarrow> jsvalue \<Rightarrow> json \<Rightarrow> string \<Rightarrow> ValidationError list \<Rightarrow> outcome option" where
  "check_type h data schema path errors =
     (case truthy_prop schema ''type'' of
        None \<Rightarrow> None
      | Some expectedType \<Rightarrow>
          let actualType = getJsonType data in
          if expectedType = JStr ''integer'' then
            (case data of
               Json (JNum n) \<Rightarrow>
                 if \<not> isInteger n then
                   Some (Normal (errors @
                     [\<lparr> error_path = JStr path,
                        error_message = ''Expected integer, got decimal number '' @ number_string h n,
                        error_value = Some data \<rparr>]))
                 else if \<not> isFinite n then
                   Some (Normal (errors @
                     [\<lparr> error_path = JStr path,
                        error_message = ''Expected finite integer, got '' @ number_string h n,
                        error_value = Some data \<rparr>]))
                 else None
             | _ \<Rightarrow>
                 Some (Normal (errors @
                   [\<lparr> error_path = JStr path,
                      error_message = ''Expected integer, got '' @ actualType,
                      error_value = Some data \<rparr>])))
          else if expectedType = JStr ''number'' then
            (case data of
               Json (JNum n) \<Rightarrow>
                 if \<not> isFinite n then
                   Some (Normal (errors @
                     [\<lparr> error_path = JStr path,
                        error_message = ''Expected finite number, got '' @ number_string h n,
                        error_value = Some data \<rparr>]))
                 else None
             | _ \<Rightarrow>
                 Some (Normal (errors @
                   [\<lparr> error_path = JStr path,
                      error_message = ''Expected number, got '' @ actualType,
                      error_value = Some data \<rparr>])))
          else if JStr actualType \<noteq> expectedType then
            Some (push_error errors (ToString h expectedType)
                    (\<lambda>expected.
                       \<lparr> error_path = JStr path,
                          error_message = ''Expected type '' @ expected @ '', got '' @ actualType,
                          error_value = Some data \<rparr>))
          else None)"

subsection \<open>Required properties validation\<close>

text \<open>
  An entry of \<^verbatim>\<open>required\<close> is declared a string. \<^verbatim>\<open>prop in data\<close> converts it to a
  property key, which throws for an entry that cannot be converted, and the templates use
  the same string; the path at the root is the entry itself.
\<close>

definition check_required ::
  "host \<Rightarrow> jsvalue \<Rightarrow> json \<Rightarrow> string \<Rightarrow> ValidationError list \<Rightarrow> outcome" where
  "check_required h data schema path errors =
     (case array_prop schema ''required'' of
        None \<Rightarrow> Normal errors
      | Some required \<Rightarrow>
          if is_plain_object data then
            forEach (\<lambda>entry errors.
                       case ToString h entry of
                         None \<Rightarrow> Thrown errors
                       | Some name \<Rightarrow>
                           if \<not> has_property name data then
                             Normal (errors @
                               [\<lparr> error_path =
                                    (if path \<noteq> [] then JStr (path @ ''.'' @ name) else entry),
                                  error_message = ''Missing required property: '' @ name,
                                  error_value = None \<rparr>])
                           else Normal errors)
              required errors
          else Normal errors)"

subsection \<open>Properties validation for objects\<close>

text \<open>
  The first \<^verbatim>\<open>forEach\<close> of the block, with the recursive call as the parameter
  \<open>validate\<close>. For a plain object \<^verbatim>\<open>prop in data\<close> holds exactly when \<^verbatim>\<open>data[prop]\<close>
  is not \<^verbatim>\<open>undefined\<close> (\<open>has_property_member\<close> below), so the two are one lookup.
\<close>

definition check_properties ::
  "(jsvalue \<Rightarrow> json \<Rightarrow> string \<Rightarrow> ValidationError list \<Rightarrow> outcome) \<Rightarrow>
   jsvalue \<Rightarrow> json \<Rightarrow> string \<Rightarrow> ValidationError list \<Rightarrow> outcome" where
  "check_properties validate data schema path errors =
     (case truthy_prop schema ''properties'' of
        None \<Rightarrow> Normal errors
      | Some properties \<Rightarrow>
          if is_plain_object data then
            forEach (\<lambda>entry errors.
                       case get_member data (fst entry) of
                         None \<Rightarrow> Normal errors
                       | Some v \<Rightarrow>
                           validate v (snd entry) (property_path path (fst entry)) errors)
              (js_entries properties) errors
          else Normal errors)"

lemma has_property_member:
  "is_plain_object data \<Longrightarrow> has_property name data \<longleftrightarrow> get_member data name \<noteq> None"
proof (cases data)
  case (Json v)
  assume "is_plain_object data"
  with Json obtain fs where v: "v = JObj fs"
    by (cases v) (simp_all add: is_plain_object_def)
  have "name \<in> set (map fst fs) \<longleftrightarrow> map_of fs name \<noteq> None"
    by (simp add: map_of_eq_None_iff)
  with Json v show ?thesis
    by (cases "map_of fs name")
       (simp_all add: has_property_def get_member_def get_prop_def object_prototype_names_def)
qed (simp_all add: has_property_def get_member_def object_prototype_names_def)

text \<open>The block under \<^verbatim>\<open>if (schema.additionalProperties === false)\<close>.\<close>

definition check_additionalProperties ::
  "jsvalue \<Rightarrow> json \<Rightarrow> string \<Rightarrow> ValidationError list \<Rightarrow> ValidationError list" where
  "check_additionalProperties data schema path errors =
     (case truthy_prop schema ''properties'' of
        None \<Rightarrow> errors
      | Some properties \<Rightarrow>
          if is_plain_object data \<and> get_prop schema ''additionalProperties'' = Some (JBool False)
          then
            (let allowedProps = map fst (js_entries properties) in
             fold (\<lambda>name errors.
                     if name \<notin> set allowedProps then
                       errors @
                       [\<lparr> error_path = JStr (property_path path name),
                          error_message = ''Additional property not allowed: '' @ name,
                          error_value = get_member data name \<rparr>]
                     else errors)
               (value_keys data) errors)
          else errors)"

subsection \<open>Array items validation\<close>

definition check_items ::
  "(jsvalue \<Rightarrow> json \<Rightarrow> string \<Rightarrow> ValidationError list \<Rightarrow> outcome) \<Rightarrow>
   jsvalue \<Rightarrow> json \<Rightarrow> string \<Rightarrow> ValidationError list \<Rightarrow> outcome" where
  "check_items validate data schema path errors =
     (case truthy_prop schema ''items'' of
        None \<Rightarrow> Normal errors
      | Some items \<Rightarrow>
          if value_isArray data then
            forEach (\<lambda>entry errors.
                       validate (Json (fst entry)) items (item_path path (snd entry)) errors)
              (indexed (value_elements data)) errors
          else Normal errors)"

subsection \<open>Array length validation\<close>

text \<open>
  The callback of \<^verbatim>\<open>data.forEach\<close> under \<^verbatim>\<open>uniqueItems\<close>; the state is the pair of
  the sets \<^verbatim>\<open>seen\<close> and \<^verbatim>\<open>duplicates\<close>, each in insertion order.
\<close>

definition note_item :: "host \<Rightarrow> json \<times> nat \<Rightarrow> string list \<times> nat list \<Rightarrow> string list \<times> nat list"
  where
  "note_item h entry state =
     (case (entry, state) of ((item, index), (seen, duplicates)) \<Rightarrow>
        let itemStr = JSON_stringify h item in
        if itemStr \<in> set seen then (seen, duplicates @ [index])
        else (seen @ [itemStr], duplicates))"

definition check_minItems ::
  "host \<Rightarrow> jsvalue \<Rightarrow> json \<Rightarrow> string \<Rightarrow> ValidationError list \<Rightarrow> outcome" where
  "check_minItems h data schema path errors =
     (case truthy_prop schema ''minItems'' of
        None \<Rightarrow> Normal errors
      | Some minItems \<Rightarrow>
          when_true (js_lt h (length_number (value_elements data)) minItems) errors
            (push_error errors (ToString h minItems)
               (\<lambda>bound.
                  \<lparr> error_path = JStr path,
                     error_message =
                       ''Array too short. Minimum items: '' @ bound
                       @ '', got '' @ dec (length (value_elements data)),
                     error_value = Some data \<rparr>)))"

definition check_maxItems ::
  "host \<Rightarrow> jsvalue \<Rightarrow> json \<Rightarrow> string \<Rightarrow> ValidationError list \<Rightarrow> outcome" where
  "check_maxItems h data schema path errors =
     (case truthy_prop schema ''maxItems'' of
        None \<Rightarrow> Normal errors
      | Some maxItems \<Rightarrow>
          when_true (js_gt h (length_number (value_elements data)) maxItems) errors
            (push_error errors (ToString h maxItems)
               (\<lambda>bound.
                  \<lparr> error_path = JStr path,
                     error_message =
                       ''Array too long. Maximum items: '' @ bound
                       @ '', got '' @ dec (length (value_elements data)),
                     error_value = Some data \<rparr>)))"

definition check_uniqueItems ::
  "host \<Rightarrow> jsvalue \<Rightarrow> json \<Rightarrow> string \<Rightarrow> ValidationError list \<Rightarrow> ValidationError list" where
  "check_uniqueItems h data schema path errors =
     (if get_prop schema ''uniqueItems'' = Some (JBool True) then
        (let duplicates = snd (fold (note_item h) (indexed (value_elements data)) ([], []))
         in if length duplicates > 0 then
              errors @
              [\<lparr> error_path = JStr path,
                 error_message =
                   ''Array items must be unique. Duplicate items at indices: ''
                   @ join (map dec duplicates) '', '',
                 error_value = Some data \<rparr>]
            else errors)
      else errors)"

text \<open>The block under \<^verbatim>\<open>if (Array.isArray(data))\<close>: the three checks in turn.\<close>

definition check_array ::
  "host \<Rightarrow> jsvalue \<Rightarrow> json \<Rightarrow> string \<Rightarrow> ValidationError list \<Rightarrow> outcome" where
  "check_array h data schema path errors =
     (if value_isArray data then
        and_then (check_minItems h data schema path errors) (\<lambda>errors.
        and_then (check_maxItems h data schema path errors) (\<lambda>errors.
        Normal (check_uniqueItems h data schema path errors)))
      else Normal errors)"

subsection \<open>String validation\<close>

text \<open>The four statements of the block; \<open>s\<close> is the string that \<open>data\<close> is.\<close>

definition check_minLength ::
  "host \<Rightarrow> string \<Rightarrow> json \<Rightarrow> string \<Rightarrow> ValidationError list \<Rightarrow> outcome" where
  "check_minLength h s schema path errors =
     (case get_prop schema ''minLength'' of
        None \<Rightarrow> Normal errors
      | Some minLength \<Rightarrow>
          when_true (js_lt h (length_number s) minLength) errors
            (push_error errors (ToString h minLength)
               (\<lambda>bound.
                  \<lparr> error_path = JStr path,
                     error_message =
                       ''String too short. Minimum length: '' @ bound
                       @ '', got '' @ dec (length s),
                     error_value = Some (Json (JStr s)) \<rparr>)))"

definition check_maxLength ::
  "host \<Rightarrow> string \<Rightarrow> json \<Rightarrow> string \<Rightarrow> ValidationError list \<Rightarrow> outcome" where
  "check_maxLength h s schema path errors =
     (case get_prop schema ''maxLength'' of
        None \<Rightarrow> Normal errors
      | Some maxLength \<Rightarrow>
          when_true (js_gt h (length_number s) maxLength) errors
            (push_error errors (ToString h maxLength)
               (\<lambda>bound.
                  \<lparr> error_path = JStr path,
                     error_message =
                       ''String too long. Maximum length: '' @ bound
                       @ '', got '' @ dec (length s),
                     error_value = Some (Json (JStr s)) \<rparr>)))"

text \<open>
  \<^verbatim>\<open>new RegExp(schema.pattern)\<close> converts the pattern to a string and compiles it. Either
  can throw inside the \<^verbatim>\<open>try\<close>; the \<^verbatim>\<open>catch\<close> block then builds its message from the
  pattern, and when it was the conversion that threw, it throws again, outside the
  \<^verbatim>\<open>try\<close>.
\<close>

definition check_pattern ::
  "host \<Rightarrow> string \<Rightarrow> json \<Rightarrow> string \<Rightarrow> ValidationError list \<Rightarrow> outcome" where
  "check_pattern h s schema path errors =
     (case truthy_prop schema ''pattern'' of
        None \<Rightarrow> Normal errors
      | Some pattern \<Rightarrow>
          (case ToString h pattern of
             None \<Rightarrow> Thrown errors
           | Some source \<Rightarrow>
               if regexp_compiles h source then
                 (if \<not> regexp_test h source False s then
                    Normal (errors @
                      [\<lparr> error_path = JStr path,
                         error_message = ''String does not match pattern: '' @ source,
                         error_value = Some (Json (JStr s)) \<rparr>])
                  else Normal errors)
               else
                 Normal (errors @
                   [\<lparr> error_path = JStr path,
                      error_message = ''Invalid regex pattern: '' @ source,
                      error_value = Some (Json pattern) \<rparr>])))"

text \<open>
  \<^verbatim>\<open>formatValidators[schema.format]\<close> converts the format to a property key, and the
  template uses the same string.
\<close>

definition check_format ::
  "host \<Rightarrow> string \<Rightarrow> json \<Rightarrow> string \<Rightarrow> ValidationError list \<Rightarrow> outcome" where
  "check_format h s schema path errors =
     (case truthy_prop schema ''format'' of
        None \<Rightarrow> Normal errors
      | Some format \<Rightarrow>
          (case ToString h format of
             None \<Rightarrow> Thrown errors
           | Some name \<Rightarrow>
               (case format_valid h name s of
                  NoValidator \<Rightarrow> Normal errors
                | ValidatorThrows \<Rightarrow> Thrown errors
                | Returned valid \<Rightarrow>
                    if \<not> valid then
                      Normal (errors @
                        [\<lparr> error_path = JStr path,
                           error_message = ''String does not match format: '' @ name,
                           error_value = Some (Json (JStr s)) \<rparr>])
                    else Normal errors)))"

text \<open>The block under \<^verbatim>\<open>if (typeof data === "string")\<close>.\<close>

definition check_string ::
  "host \<Rightarrow> jsvalue \<Rightarrow> json \<Rightarrow> string \<Rightarrow> ValidationError list \<Rightarrow> outcome" where
  "check_string h data schema path errors =
     (case data of
        Json (JStr s) \<Rightarrow>
          and_then (check_minLength h s schema path errors) (\<lambda>errors.
          and_then (check_maxLength h s schema path errors) (\<lambda>errors.
          and_then (check_pattern h s schema path errors) (\<lambda>errors.
          check_format h s schema path errors)))
      | _ \<Rightarrow> Normal errors)"

subsection \<open>Number/Integer validation\<close>

text \<open>
  The statement for one of the four bounds; \<open>q\<close> is the finite number that \<open>data\<close> is,
  \<open>compare\<close> the comparison and \<open>message\<close> the start of the template.
\<close>

definition check_bound ::
  "host \<Rightarrow> string \<Rightarrow> (host \<Rightarrow> jnum \<Rightarrow> json \<Rightarrow> bool option) \<Rightarrow> string \<Rightarrow>
   rat \<Rightarrow> json \<Rightarrow> string \<Rightarrow> ValidationError list \<Rightarrow> outcome" where
  "check_bound h name compare message q schema path errors =
     (case get_prop schema name of
        None \<Rightarrow> Normal errors
      | Some bound \<Rightarrow>
          when_true (compare h (Fin q) bound) errors
            (push_error errors (ToString h bound)
               (\<lambda>shown.
                  \<lparr> error_path = JStr path,
                     error_message = message @ shown @ '', got '' @ number_string h (Fin q),
                     error_value = Some (Json (JNum (Fin q))) \<rparr>)))"

text \<open>
  \<^verbatim>\<open>schema.multipleOf > 0\<close> converts the divisor to a number, which may throw; the
  division and the template convert it again.
\<close>

definition check_multipleOf ::
  "host \<Rightarrow> rat \<Rightarrow> json \<Rightarrow> string \<Rightarrow> ValidationError list \<Rightarrow> outcome" where
  "check_multipleOf h q schema path errors =
     (case get_prop schema ''multipleOf'' of
        None \<Rightarrow> Normal errors
      | Some multipleOf \<Rightarrow>
          (case to_number h multipleOf of
             TypeError \<Rightarrow> Thrown errors
           | IsNaN \<Rightarrow> Normal errors
           | IsNumber divisor \<Rightarrow>
               if jnum_less (Fin 0) divisor \<and> \<not> quotient_is_integer h (Fin q) divisor then
                 push_error errors (ToString h multipleOf)
                   (\<lambda>shown.
                      \<lparr> error_path = JStr path,
                         error_message =
                           ''Number must be a multiple of '' @ shown
                           @ '', got '' @ number_string h (Fin q),
                         error_value = Some (Json (JNum (Fin q))) \<rparr>)
               else Normal errors))"

text \<open>The block under \<^verbatim>\<open>if (typeof data === "number" && Number.isFinite(data))\<close>.\<close>

definition check_number ::
  "host \<Rightarrow> jsvalue \<Rightarrow> json \<Rightarrow> string \<Rightarrow> ValidationError list \<Rightarrow> outcome" where
  "check_number h data schema path errors =
     (case data of
        Json (JNum (Fin q)) \<Rightarrow>
          and_then (check_bound h ''minimum'' js_lt ''Number too small. Minimum: ''
                      q schema path errors) (\<lambda>errors.
          and_then (check_bound h ''maximum'' js_gt ''Number too large. Maximum: ''
                      q schema path errors) (\<lambda>errors.
          and_then (check_bound h ''exclusiveMinimum'' js_le ''Number must be greater than ''
                      q schema path errors) (\<lambda>errors.
          and_then (check_bound h ''exclusiveMaximum'' js_ge ''Number must be less than ''
                      q schema path errors) (\<lambda>errors.
          check_multipleOf h q schema path errors))))
      | _ \<Rightarrow> Normal errors)"

subsection \<open>Enum and const validation\<close>

definition check_enum ::
  "host \<Rightarrow> jsvalue \<Rightarrow> json \<Rightarrow> string \<Rightarrow> ValidationError list \<Rightarrow> ValidationError list" where
  "check_enum h data schema path errors =
     (case array_prop schema ''enum'' of
        None \<Rightarrow> errors
      | Some enumValues \<Rightarrow>
          let dataStr = value_stringify h data;
              isValid =
                list_ex (\<lambda>enumValue. Some (JSON_stringify h enumValue) = dataStr) enumValues
          in if \<not> isValid then
               errors @
               [\<lparr> error_path = JStr path,
                  error_message =
                    ''Value must be one of: ''
                    @ join (map (JSON_stringify h) enumValues) '', ''
                    @ ''. Got: '' @ in_template dataStr,
                  error_value = Some data \<rparr>]
             else errors)"

definition check_const ::
  "host \<Rightarrow> jsvalue \<Rightarrow> json \<Rightarrow> string \<Rightarrow> ValidationError list \<Rightarrow> ValidationError list" where
  "check_const h data schema path errors =
     (case get_prop schema ''const'' of
        None \<Rightarrow> errors
      | Some const \<Rightarrow>
          if value_stringify h data \<noteq> Some (JSON_stringify h const) then
            errors @
            [\<lparr> error_path = JStr path,
               error_message =
                 ''Value must be exactly: '' @ JSON_stringify h const
                 @ ''. Got: '' @ in_template (value_stringify h data),
               error_value = Some data \<rparr>]
          else errors)"

subsection \<open>OneOf, AnyOf and AllOf validation\<close>

text \<open>
  The parameter \<open>isolated\<close> is the callback's call of the validator with the fresh list
  \<^verbatim>\<open>subErrors\<close>; \<open>validate\<close> is the call with the shared list.
\<close>

definition check_oneOf ::
  "(json \<Rightarrow> outcome) \<Rightarrow> jsvalue \<Rightarrow> json \<Rightarrow> string \<Rightarrow> ValidationError list \<Rightarrow> outcome" where
  "check_oneOf isolated data schema path errors =
     (case array_prop schema ''oneOf'' of
        None \<Rightarrow> Normal errors
      | Some oneOf \<Rightarrow>
          (case filter_valid isolated oneOf of
             None \<Rightarrow> Thrown errors
           | Some validSchemas \<Rightarrow>
               if length validSchemas \<noteq> 1 then
                 Normal
                   (errors @
                    [\<lparr> error_path = JStr path,
                       error_message =
                         ''Data must match exactly one schema. Matched ''
                         @ dec (length validSchemas) @ '' schemas.'',
                       error_value = Some data \<rparr>])
               else Normal errors))"

definition check_anyOf ::
  "(json \<Rightarrow> outcome) \<Rightarrow> jsvalue \<Rightarrow> json \<Rightarrow> string \<Rightarrow> ValidationError list \<Rightarrow> outcome" where
  "check_anyOf isolated data schema path errors =
     (case array_prop schema ''anyOf'' of
        None \<Rightarrow> Normal errors
      | Some anyOf \<Rightarrow>
          (case filter_valid isolated anyOf of
             None \<Rightarrow> Thrown errors
           | Some validSchemas \<Rightarrow>
               if length validSchemas = 0 then
                 Normal
                   (errors @
                    [\<lparr> error_path = JStr path,
                       error_message = ''Data must match at least one schema. Matched 0 schemas.'',
                       error_value = Some data \<rparr>])
               else Normal errors))"

definition check_allOf ::
  "(json \<Rightarrow> ValidationError list \<Rightarrow> outcome) \<Rightarrow> json \<Rightarrow> ValidationError list \<Rightarrow> outcome"
  where
  "check_allOf validate schema errors =
     (case array_prop schema ''allOf'' of
        None \<Rightarrow> Normal errors
      | Some allOf \<Rightarrow> forEach validate allOf errors)"

section \<open>Schema validation: validateAgainstSchema and validateJsonSchema\<close>

text \<open>A schema read from another schema is smaller; this is why the validator terminates.\<close>

lemma get_prop_nodes: "get_prop schema name = Some v \<Longrightarrow> nodes v < nodes schema"
proof (cases schema)
  case (JObj fs)
  assume "get_prop schema name = Some v"
  with JObj have "(name, v) \<in> set fs"
    by (simp add: get_prop_def map_of_SomeD)
  then have "nodes v \<le> sum_list (map (\<lambda>kv. nodes (snd kv)) fs)"
    by (rule entry_nodes)
  with JObj show ?thesis by simp
qed (simp_all add: get_prop_def)

lemma truthy_prop_nodes: "truthy_prop schema name = Some v \<Longrightarrow> nodes v < nodes schema"
  by (auto simp: truthy_prop_def dest: get_prop_nodes split: option.splits if_splits)

lemma array_prop_nodes:
  "array_prop schema name = Some subs \<Longrightarrow> sub \<in> set subs \<Longrightarrow> nodes sub < nodes schema"
proof -
  assume a: "array_prop schema name = Some subs" and m: "sub \<in> set subs"
  from a have "get_prop schema name = Some (JArr subs)"
    by (auto simp: array_prop_def split: option.splits json.splits)
  then have "nodes (JArr subs) < nodes schema"
    by (rule get_prop_nodes)
  moreover from m have "nodes sub \<le> sum_list (map nodes subs)"
    by (rule element_nodes)
  ultimately show ?thesis by simp
qed

lemma js_entries_nodes: "(k, s) \<in> set (js_entries v) \<Longrightarrow> nodes s \<le> nodes v"
proof (cases v)
  case (JArr xs)
  assume "(k, s) \<in> set (js_entries v)"
  with JArr have "s \<in> set xs"
    by (auto simp: indexed_def dest: set_zip_leftD)
  then have "nodes s \<le> sum_list (map nodes xs)"
    by (rule element_nodes)
  with JArr show ?thesis by simp
next
  case (JObj fs)
  assume "(k, s) \<in> set (js_entries v)"
  with JObj have "nodes s \<le> sum_list (map (\<lambda>kv. nodes (snd kv)) fs)"
    by (simp add: entry_nodes)
  with JObj show ?thesis by simp
qed auto

text \<open>The checks that call the validator call it on schemas read from their own schema.\<close>

lemma check_properties_cong [fundef_cong]:
  assumes "data = data'" and "schema = schema'" and "path = path'" and "errors = errors'"
    and "\<And>properties k s v p es.
           truthy_prop schema' ''properties'' = Some properties \<Longrightarrow>
           (k, s) \<in> set (js_entries properties) \<Longrightarrow>
           validate v s p es = validate' v s p es"
  shows "check_properties validate data schema path errors =
         check_properties validate' data' schema' path' errors'"
  unfolding check_properties_def assms(1-4)
  by (auto split: option.splits intro!: forEach_cong simp: assms(5))

lemma check_items_cong [fundef_cong]:
  assumes "data = data'" and "schema = schema'" and "path = path'" and "errors = errors'"
    and "\<And>items v p es.
           truthy_prop schema' ''items'' = Some items \<Longrightarrow>
           validate v items p es = validate' v items p es"
  shows "check_items validate data schema path errors =
         check_items validate' data' schema' path' errors'"
  unfolding check_items_def assms(1-4)
  by (auto split: option.splits intro!: forEach_cong simp: assms(5))

lemma check_oneOf_cong [fundef_cong]:
  assumes "data = data'" and "schema = schema'" and "path = path'" and "errors = errors'"
    and "\<And>subs sub. array_prop schema' ''oneOf'' = Some subs \<Longrightarrow> sub \<in> set subs \<Longrightarrow>
           isolated sub = isolated' sub"
  shows "check_oneOf isolated data schema path errors =
         check_oneOf isolated' data' schema' path' errors'"
proof (cases "array_prop schema' ''oneOf''")
  case None
  then show ?thesis by (simp add: check_oneOf_def assms(1-4))
next
  case (Some subs)
  then have "filter_valid isolated subs = filter_valid isolated' subs"
    by (intro filter_valid_eq assms(5))
  with Some show ?thesis by (simp add: check_oneOf_def assms(1-4))
qed

lemma check_anyOf_cong [fundef_cong]:
  assumes "data = data'" and "schema = schema'" and "path = path'" and "errors = errors'"
    and "\<And>subs sub. array_prop schema' ''anyOf'' = Some subs \<Longrightarrow> sub \<in> set subs \<Longrightarrow>
           isolated sub = isolated' sub"
  shows "check_anyOf isolated data schema path errors =
         check_anyOf isolated' data' schema' path' errors'"
proof (cases "array_prop schema' ''anyOf''")
  case None
  then show ?thesis by (simp add: check_anyOf_def assms(1-4))
next
  case (Some subs)
  then have "filter_valid isolated subs = filter_valid isolated' subs"
    by (intro filter_valid_eq assms(5))
  with Some show ?thesis by (simp add: check_anyOf_def assms(1-4))
qed

lemma check_allOf_cong [fundef_cong]:
  assumes "schema = schema'" and "errors = errors'"
    and "\<And>subs sub es. array_prop schema' ''allOf'' = Some subs \<Longrightarrow> sub \<in> set subs \<Longrightarrow>
           validate sub es = validate' sub es"
  shows "check_allOf validate schema errors = check_allOf validate' schema' errors'"
  unfolding check_allOf_def assms(1,2)
  by (auto split: option.splits intro!: forEach_cong simp: assms(3))

text \<open>
  \<^verbatim>\<open>validateAgainstSchema\<close>. The first statement reads \<^verbatim>\<open>schema.type\<close>, which throws
  for the schema \<^verbatim>\<open>null\<close>. A failed type check ends the call; otherwise the checks run
  in the order of the source, each on the list the one before left, until one throws.
\<close>

function validateAgainstSchema ::
  "host \<Rightarrow> jsvalue \<Rightarrow> json \<Rightarrow> string \<Rightarrow> ValidationError list \<Rightarrow> outcome" where
  "validateAgainstSchema h data schema path errors =
     (if schema = JNull then Thrown errors
      else
        case check_type h data schema path errors of
          Some ended \<Rightarrow> ended
        | None \<Rightarrow>
            and_then (check_required h data schema path errors) (\<lambda>errors.
            and_then (check_properties (\<lambda>v s p es. validateAgainstSchema h v s p es)
                        data schema path errors) (\<lambda>errors.
            and_then (Normal (check_additionalProperties data schema path errors)) (\<lambda>errors.
            and_then (check_items (\<lambda>v s p es. validateAgainstSchema h v s p es)
                        data schema path errors) (\<lambda>errors.
            and_then (check_array h data schema path errors) (\<lambda>errors.
            and_then (check_string h data schema path errors) (\<lambda>errors.
            and_then (check_number h data schema path errors) (\<lambda>errors.
            and_then (Normal (check_enum h data schema path errors)) (\<lambda>errors.
            and_then (Normal (check_const h data schema path errors)) (\<lambda>errors.
            and_then (check_oneOf (\<lambda>subSchema. validateAgainstSchema h data subSchema path [])
                        data schema path errors) (\<lambda>errors.
            and_then (check_anyOf (\<lambda>subSchema. validateAgainstSchema h data subSchema path [])
                        data schema path errors) (\<lambda>errors.
            check_allOf (\<lambda>subSchema es. validateAgainstSchema h data subSchema path es)
              schema errors))))))))))))"
  by pat_completeness auto
termination
proof (relation "measure (\<lambda>(h, data, schema, path, errors). nodes schema)")
  fix schema properties s :: json and k :: string
  assume "truthy_prop schema ''properties'' = Some properties"
    and "(k, s) \<in> set (js_entries properties)"
  then have "nodes s < nodes schema"
    using truthy_prop_nodes [of schema "''properties''" properties]
      js_entries_nodes [of k s properties]
    by simp
  then show "((h, v, s, p, es), h', data, schema, path, errors)
      \<in> measure (\<lambda>(h, data, schema, path, errors). nodes schema)"
    for h h' :: host and v data :: jsvalue and p path :: string
      and es errors :: "ValidationError list"
    by simp
qed (auto dest: truthy_prop_nodes array_prop_nodes)

declare validateAgainstSchema.simps [simp del]

text \<open>
  \<^verbatim>\<open>validateJsonSchema\<close>, called with a parsed value: the \<^verbatim>\<open>catch\<close> block runs when
  \<^verbatim>\<open>JSON.parse\<close> throws and when the validator throws, and pushes its error onto what
  is already in the list.
\<close>

definition validateJsonSchema :: "host \<Rightarrow> json \<Rightarrow> string \<Rightarrow> ValidationError list" where
  "validateJsonSchema h data schemaString =
     (let invalid = \<lparr> error_path = JStr ''schema'', error_message = ''Invalid schema format'',
                      error_value = Some (Json (JStr schemaString)) \<rparr>
      in case json_parse h schemaString of
           None \<Rightarrow> [invalid]
         | Some schema \<Rightarrow>
             (case validateAgainstSchema h (Json data) schema [] [] of
                Normal errors \<Rightarrow> errors
              | Thrown errors \<Rightarrow> errors @ [invalid]))"

section \<open>Notions for stating the validator's properties\<close>

text \<open>The schema fields that the validator reads.\<close>

definition schema_keywords :: "string list" where
  "schema_keywords =
     [''type'', ''required'', ''properties'', ''additionalProperties'', ''items'',
      ''minItems'', ''maxItems'', ''uniqueItems'', ''minLength'', ''maxLength'', ''pattern'',
      ''format'', ''minimum'', ''maximum'', ''exclusiveMinimum'', ''exclusiveMaximum'',
      ''multipleOf'', ''enum'', ''const'', ''oneOf'', ''anyOf'', ''allOf'']"

text \<open>
  A failed type check in the words of the specification: for \<^verbatim>\<open>integer\<close> the value is
  not a finite integral number, for \<^verbatim>\<open>number\<close> it is not a finite number, and otherwise
  its classified type differs from the type named.
\<close>

definition fails_type :: "jsvalue \<Rightarrow> json \<Rightarrow> bool" where
  "fails_type data t =
     (if t = JStr ''integer'' then
        (case data of Json (JNum n) \<Rightarrow> \<not> (isInteger n \<and> isFinite n) | _ \<Rightarrow> True)
      else if t = JStr ''number'' then
        (case data of Json (JNum n) \<Rightarrow> \<not> isFinite n | _ \<Rightarrow> True)
      else JStr (getJsonType data) \<noteq> t)"


section \<open>Properties of the metrics pass\<close>

lemma countNodes_loop_nodes: "countNodes_loop stack count = count + stack_nodes stack"
proof (induction stack count rule: countNodes_loop.induct)
  case (1 count)
  show ?case by (simp add: stack_nodes_def)
next
  case (2 current stack count)
  show ?case
  proof (cases "js_typeof current = ''object'' \<and> current \<noteq> JNull")
    case True
    with 2 nodes_children [of current] show ?thesis
      by (cases "isArray current") (simp_all add: stack_nodes_push, simp_all add: stack_nodes_def)
  next
    case False
    with 2 show ?thesis by (cases current) (simp_all add: stack_nodes_def)
  qed
qed

lemma sum_bump: "sum_list (map snd (bump t d)) = sum_list (map snd d) + 1"
  unfolding bump_def
  by (induction d) (auto split: option.splits)

lemma getTypeDistribution_loop_sum:
  "sum_list (map snd (getTypeDistribution_loop stack d)) =
   sum_list (map snd d) + stack_nodes stack"
proof (induction stack d rule: getTypeDistribution_loop.induct)
  case (1 d)
  show ?case by (simp add: stack_nodes_def)
next
  case (2 current stack d)
  show ?case
  proof (cases "js_typeof current = ''object'' \<and> current \<noteq> JNull")
    case True
    with 2 nodes_children [of current] show ?thesis
      by (cases "isArray current")
         (simp_all add: stack_nodes_push sum_bump, simp_all add: stack_nodes_def)
  next
    case False
    with 2 show ?thesis by (cases current) (simp_all add: stack_nodes_def sum_bump)
  qed
qed

text \<open>
  C8. On the value parsed from \<^verbatim>\<open>{"a":[1,2,3]}\<close> the metrics report \<open>nodeCount = 5\<close>
  (the root object, the array and the three numbers) and \<open>maxDepth = 2\<close> (the root is at
  depth 0).
\<close>

theorem C8_metrics_example:
  "nodeCount (collectMetrics (JObj [(''a'', JArr [JNum (Fin 1), JNum (Fin 2), JNum (Fin 3)])])) = 5
   \<and> maxDepth (collectMetrics (JObj [(''a'', JArr [JNum (Fin 1), JNum (Fin 2), JNum (Fin 3)])])) = 2"
  by (simp add: collectMetrics_def countNodes_def getMaxDepth_def push_all_def)

text \<open>
  C9. For every value, the counts of the type distribution add up to the node count: both
  traversals count each node of the tree once (each total is the number of nodes of the
  value), and the distribution pass files each node under one type name.
\<close>

theorem C9_distribution_sums_to_nodeCount:
  "sum_list (map snd (typeDistribution (collectMetrics data))) = nodeCount (collectMetrics data)
   \<and> nodeCount (collectMetrics data) = nodes data"
  by (simp add: collectMetrics_def getTypeDistribution_def countNodes_def
      getTypeDistribution_loop_sum countNodes_loop_nodes stack_nodes_def
      del: getTypeDistribution_loop.simps countNodes_loop.simps)

section \<open>Properties of the search\<close>

lemma subtree_hits_unfold:
  "subtree_hits h cs t (v, p) =
   node_hits h cs t (v, p) \<union> (\<Union>e \<in> set (child_entries p v). subtree_hits h cs t e)"
  unfolding subtree_hits_def
  by (subst tree_nodes.simps) (simp add: case_prod_beta)

lemma stack_hits_push:
  "(\<Union>e \<in> set (push_all es stack). subtree_hits h cs t e) =
   (\<Union>e \<in> set es. subtree_hits h cs t e) \<union> (\<Union>e \<in> set stack. subtree_hits h cs t e)"
  by (auto simp: push_all_def)

lemma visit_entry_step:
  "visit_entry cs t p (k, v) (results, stack) =
   (if matches cs k t
    then results @ [\<lparr> result_path = join (p @ [k]) ''.'', result_type = Key,
                      result_text = k, position = length results \<rparr>]
    else results, (v, p @ [k]) # stack)"
  by (simp add: visit_entry_def matches_def Let_def)

lemma fold_visit_entry_results:
  "hit ` set (fst (fold (visit_entry cs t p) fs (results, stack))) =
   hit ` set results \<union> key_hits cs t p (JObj fs)"
proof (induction fs arbitrary: results stack)
  case Nil
  show ?case by (simp add: key_hits_def)
next
  case (Cons e fs)
  obtain k v where e: "e = (k, v)" by (cases e)
  show ?case
  proof (cases "matches cs k t")
    case True
    then show ?thesis
      unfolding e by (simp add: visit_entry_step Cons.IH) (auto simp: key_hits_def hit_def)
  next
    case False
    then show ?thesis
      unfolding e by (simp add: visit_entry_step Cons.IH) (auto simp: key_hits_def hit_def)
  qed
qed

lemma push_children:
  "is_container val \<Longrightarrow> isArray val \<Longrightarrow>
   fold (visit_item p) (indexed (elements val)) stack = push_all (child_entries p val) stack"
  "is_container val \<Longrightarrow> \<not> isArray val \<Longrightarrow>
   snd (fold (visit_entry cs t p) (object_entries val) (results, stack)) =
   push_all (child_entries p val) stack"
  "\<not> is_container val \<Longrightarrow> child_entries p val = []"
  by (cases val; simp add: is_container_def fold_visit_item fold_visit_entry_stack)+

lemma key_hits_entries:
  "is_container val \<Longrightarrow> \<not> isArray val \<Longrightarrow>
   hit ` set (fst (fold (visit_entry cs t p) (object_entries val) (results, stack))) =
   hit ` set results \<union> key_hits cs t p val"
  "isArray val \<Longrightarrow> key_hits cs t p val = {}"
  by (cases val; simp add: is_container_def fold_visit_entry_results key_hits_def)+

lemma search_loop_hits:
  "hit ` set (performSearch_loop h cs t stack results) =
   hit ` set results \<union> (\<Union>e \<in> set stack. subtree_hits h cs t e)"
proof (induction h cs t stack results rule: performSearch_loop.induct)
  case (1 h cs t results)
  show ?case by simp
next
  case (2 h cs t val p stack results)
  let ?rest = "\<Union>e \<in> set stack. subtree_hits h cs t e"
  let ?below = "\<Union>e \<in> set (child_entries p val). subtree_hits h cs t e"
  have here: "(\<Union>e \<in> set ((val, p) # stack). subtree_hits h cs t e) =
      node_hits h cs t (val, p) \<union> ?below \<union> ?rest"
    by (simp add: subtree_hits_unfold [of h cs t val p])
  show ?case
  proof (cases "is_container val")
    case False
    let ?r = "\<lparr> result_path = join p ''.'', result_type = Value,
                 result_text = js_String h val, position = length results \<rparr>"
    have below: "?below = {}"
      using False by (simp add: push_children)
    show ?thesis
    proof (cases "matches cs (js_String h val) t")
      case m: True
      have "hit ` set (performSearch_loop h cs t stack (results @ [?r])) =
            hit ` set (results @ [?r]) \<union> ?rest"
        using "2.IH"(3) False m by (auto simp: is_container_def matches_def)
      moreover have "performSearch_loop h cs t ((val, p) # stack) results =
            performSearch_loop h cs t stack (results @ [?r])"
        using False m by (auto simp: is_container_def matches_def)
      moreover have "node_hits h cs t (val, p) = {hit ?r}"
        using False m by (simp add: node_hits_def hit_def)
      ultimately show ?thesis
        unfolding here below by auto
    next
      case m: False
      have "hit ` set (performSearch_loop h cs t stack results) = hit ` set results \<union> ?rest"
        using "2.IH"(4) False m by (auto simp: is_container_def matches_def)
      moreover have "performSearch_loop h cs t ((val, p) # stack) results =
            performSearch_loop h cs t stack results"
        using False m by (auto simp: is_container_def matches_def)
      moreover have "node_hits h cs t (val, p) = {}"
        using False m by (simp add: node_hits_def)
      ultimately show ?thesis
        unfolding here below by auto
    qed
  next
    case True
    show ?thesis
    proof (cases "isArray val")
      case arr: True
      have "hit ` set (performSearch_loop h cs t ((val, p) # stack) results) =
            hit ` set results \<union> (?below \<union> ?rest)"
        using "2.IH"(1) True arr
        by (simp add: is_container_def push_children [unfolded is_container_def] stack_hits_push)
      moreover have "node_hits h cs t (val, p) = {}"
        using True arr by (simp add: node_hits_def key_hits_entries)
      ultimately show ?thesis
        unfolding here by auto
    next
      case obj: False
      obtain results' stack' where
        f: "fold (visit_entry cs t p) (object_entries val) (results, stack) = (results', stack')"
        by (cases "fold (visit_entry cs t p) (object_entries val) (results, stack)")
      have s: "stack' = push_all (child_entries p val) stack"
        using push_children(2) [OF True obj, of cs t p results stack] f by simp
      have r: "hit ` set results' = hit ` set results \<union> key_hits cs t p val"
        using key_hits_entries(1) [OF True obj, of cs t p results stack] f by simp
      have "hit ` set (performSearch_loop h cs t stack' results') =
            hit ` set results' \<union> (\<Union>e \<in> set stack'. subtree_hits h cs t e)"
        using "2.IH"(2) [OF _ obj f [symmetric]] True
        by (simp add: is_container_def)
      then have "hit ` set (performSearch_loop h cs t ((val, p) # stack) results) =
            hit ` set results \<union> key_hits cs t p val \<union> (?below \<union> ?rest)"
        using True obj f by (simp add: is_container_def r s stack_hits_push)
      moreover have "node_hits h cs t (val, p) = key_hits cs t p val"
        using True by (simp add: node_hits_def)
      ultimately show ?thesis
        unfolding here by auto
    qed
  qed
qed


lemma search_hits:
  "term \<noteq> [] \<Longrightarrow>
   hit ` set (performSearch h cs term data) =
   (\<Union>n \<in> set (tree_nodes [] data).
      node_hits h cs (if cs then term else toLowerCase term) n)"
  by (simp add: performSearch_def search_loop_hits subtree_hits_def
      del: performSearch_loop.simps)

lemma is_container_iff: "is_container v \<longleftrightarrow> (\<exists>xs. v = JArr xs) \<or> (\<exists>fs. v = JObj fs)"
  by (cases v) (simp_all add: is_container_def)

lemma key_in_node_hits:
  "(rp, Key, k) \<in> node_hits h cs t (v, p) \<longleftrightarrow>
   (\<exists>fs. v = JObj fs \<and> k \<in> fst ` set fs \<and> rp = join (p @ [k]) ''.'' \<and>
         js_includes (if cs then k else toLowerCase k) t)"
  by (cases v) (auto simp: node_hits_def key_hits_def is_container_def matches_def)

lemma value_in_node_hits:
  "(rp, Value, s) \<in> node_hits h cs t (v, p) \<longleftrightarrow>
   ((\<forall>xs. v \<noteq> JArr xs) \<and> (\<forall>fs. v \<noteq> JObj fs) \<and> s = js_String h v \<and> rp = join p ''.'' \<and>
    js_includes (if cs then s else toLowerCase s) t)"
  by (cases v) (auto simp: node_hits_def key_hits_def is_container_def matches_def)

lemma search_key_results:
  assumes "term \<noteq> []"
  shows "(\<exists>r \<in> set (performSearch h cs term data).
            result_path r = rp \<and> result_type r = Key \<and> result_text r = k) \<longleftrightarrow>
         (\<exists>fs p. (JObj fs, p) \<in> set (tree_nodes [] data) \<and> k \<in> fst ` set fs \<and>
            rp = join (p @ [k]) ''.'' \<and>
            js_includes (if cs then k else toLowerCase k)
                        (if cs then term else toLowerCase term))"
proof -
  let ?t = "if cs then term else toLowerCase term"
  have "(\<exists>r \<in> set (performSearch h cs term data).
            result_path r = rp \<and> result_type r = Key \<and> result_text r = k) \<longleftrightarrow>
        (rp, Key, k) \<in> hit ` set (performSearch h cs term data)"
    by (auto simp: hit_def)
  also have "\<dots> \<longleftrightarrow> (\<exists>n \<in> set (tree_nodes [] data). (rp, Key, k) \<in> node_hits h cs ?t n)"
    by (simp add: search_hits [OF assms])
  also have "\<dots> \<longleftrightarrow> (\<exists>v p. (v, p) \<in> set (tree_nodes [] data) \<and>
                         (rp, Key, k) \<in> node_hits h cs ?t (v, p))"
    by auto
  finally show ?thesis
    unfolding key_in_node_hits by auto
qed

lemma search_value_results:
  assumes "term \<noteq> []"
  shows "(\<exists>r \<in> set (performSearch h cs term data).
            result_path r = rp \<and> result_type r = Value \<and> result_text r = s) \<longleftrightarrow>
         (\<exists>v p. (v, p) \<in> set (tree_nodes [] data) \<and>
            (\<forall>xs. v \<noteq> JArr xs) \<and> (\<forall>fs. v \<noteq> JObj fs) \<and>
            s = js_String h v \<and> rp = join p ''.'' \<and>
            js_includes (if cs then s else toLowerCase s)
                        (if cs then term else toLowerCase term))"
proof -
  let ?t = "if cs then term else toLowerCase term"
  have "(\<exists>r \<in> set (performSearch h cs term data).
            result_path r = rp \<and> result_type r = Value \<and> result_text r = s) \<longleftrightarrow>
        (rp, Value, s) \<in> hit ` set (performSearch h cs term data)"
    by (auto simp: hit_def)
  also have "\<dots> \<longleftrightarrow> (\<exists>n \<in> set (tree_nodes [] data). (rp, Value, s) \<in> node_hits h cs ?t n)"
    by (simp add: search_hits [OF assms])
  also have "\<dots> \<longleftrightarrow> (\<exists>v p. (v, p) \<in> set (tree_nodes [] data) \<and>
                         (rp, Value, s) \<in> node_hits h cs ?t (v, p))"
    by auto
  finally show ?thesis
    unfolding value_in_node_hits by auto
qed

text \<open>
  C7. The search honours the case-sensitivity flag. On \<^verbatim>\<open>{"K":"V"}\<close> the term \<^verbatim>\<open>k\<close>
  finds the key \<^verbatim>\<open>K\<close> when the flag is off and nothing when it is on. In general, for a
  non-empty term, there is a Key result for exactly the keys of the object nodes, and a
  Value result for exactly the primitive nodes, whose text contains the term: both texts
  in lower case when the flag is off, both unchanged when it is on.
\<close>

theorem C7_search_case_flag:
  "performSearch h False ''k'' (JObj [(''K'', JStr ''V'')]) =
     [\<lparr> result_path = ''K'', result_type = Key, result_text = ''K'', position = 0 \<rparr>]
   \<and> performSearch h True ''k'' (JObj [(''K'', JStr ''V'')]) = []
   \<and> (term \<noteq> [] \<longrightarrow>
        (\<forall>rp k. (\<exists>r \<in> set (performSearch h cs term data).
                    result_path r = rp \<and> result_type r = Key \<and> result_text r = k) \<longleftrightarrow>
                 (\<exists>fs p. (JObj fs, p) \<in> set (tree_nodes [] data) \<and> k \<in> fst ` set fs \<and>
                    rp = join (p @ [k]) ''.'' \<and>
                    js_includes (if cs then k else toLowerCase k)
                                (if cs then term else toLowerCase term)))
      \<and> (\<forall>rp s. (\<exists>r \<in> set (performSearch h cs term data).
                    result_path r = rp \<and> result_type r = Value \<and> result_text r = s) \<longleftrightarrow>
                 (\<exists>v p. (v, p) \<in> set (tree_nodes [] data) \<and>
                    (\<forall>xs. v \<noteq> JArr xs) \<and> (\<forall>fs. v \<noteq> JObj fs) \<and>
                    s = js_String h v \<and> rp = join p ''.'' \<and>
                    js_includes (if cs then s else toLowerCase s)
                                (if cs then term else toLowerCase term))))"
proof (intro conjI impI allI)
  show "performSearch h False ''k'' (JObj [(''K'', JStr ''V'')]) =
     [\<lparr> result_path = ''K'', result_type = Key, result_text = ''K'', position = 0 \<rparr>]"
    by code_simp
  show "performSearch h True ''k'' (JObj [(''K'', JStr ''V'')]) = []"
    by code_simp
qed (rule search_key_results search_value_results; assumption)+

theorem C7_search_case_flag_witness:
  "(''k'' :: string) \<noteq> [] \<and>
   (\<exists>r \<in> set (performSearch bare_host False ''k'' (JObj [(''K'', JStr ''V'')])).
      result_path r = ''K'' \<and> result_type r = Key \<and> result_text r = ''K'') \<and>
   \<not> (\<exists>r \<in> set (performSearch bare_host True ''k'' (JObj [(''K'', JStr ''V'')])).
      result_path r = ''K'' \<and> result_type r = Key \<and> result_text r = ''K'')"
proof -
  let ?d = "JObj [(''K'', JStr ''V'')]"
  have t: "(''k'' :: string) \<noteq> []" by simp
  have off: "(\<exists>r \<in> set (performSearch bare_host False ''k'' ?d).
              result_path r = ''K'' \<and> result_type r = Key \<and> result_text r = ''K'') \<longleftrightarrow>
        (\<exists>fs p. (JObj fs, p) \<in> set (tree_nodes [] ?d) \<and> ''K'' \<in> fst ` set fs \<and>
              ''K'' = join (p @ [''K'']) ''.'' \<and>
              js_includes (if False then ''K'' else toLowerCase ''K'')
                          (if False then ''k'' else toLowerCase ''k''))"
    using C7_search_case_flag [of bare_host "''k''" False ?d] t by blast
  have on: "(\<exists>r \<in> set (performSearch bare_host True ''k'' ?d).
              result_path r = ''K'' \<and> result_type r = Key \<and> result_text r = ''K'') \<longleftrightarrow>
        (\<exists>fs p. (JObj fs, p) \<in> set (tree_nodes [] ?d) \<and> ''K'' \<in> fst ` set fs \<and>
              ''K'' = join (p @ [''K'']) ''.'' \<and>
              js_includes (if True then ''K'' else toLowerCase ''K'')
                          (if True then ''k'' else toLowerCase ''k''))"
    using C7_search_case_flag [of bare_host "''k''" True ?d] t by blast
  have root: "(?d, []) \<in> set (tree_nodes [] ?d)"
    by (subst tree_nodes.simps) simp
  have low: "js_includes (toLowerCase ''K'') (toLowerCase ''k'')"
    by code_simp
  have "\<exists>fs p. (JObj fs, p) \<in> set (tree_nodes [] ?d) \<and> ''K'' \<in> fst ` set fs \<and>
              ''K'' = join (p @ [''K'']) ''.'' \<and>
              js_includes (if False then ''K'' else toLowerCase ''K'')
                          (if False then ''k'' else toLowerCase ''k'')"
    using root low by (intro exI [of _ "[(''K'', JStr ''V'')]"] exI [of _ "[]"]) simp
  with off have 1: "\<exists>r \<in> set (performSearch bare_host False ''k'' ?d).
      result_path r = ''K'' \<and> result_type r = Key \<and> result_text r = ''K''"
    by (rule iffD2)
  have "\<not> js_includes ''K'' ''k''"
    by simp
  then have 2: "\<not> (\<exists>r \<in> set (performSearch bare_host True ''k'' ?d).
      result_path r = ''K'' \<and> result_type r = Key \<and> result_text r = ''K'')"
    unfolding on by simp
  from t 1 2 show ?thesis by (intro conjI)
qed

text \<open>
  C10. Every Value result is the string form of a primitive node of the value (neither an
  array nor an object), under that node's path, and every Key result is a key of an
  object node. A container gives no Value result even when its own string form contains
  the term: \<^verbatim>\<open>String({})\<close> is \<^verbatim>\<open>[object Object]\<close> and \<^verbatim>\<open>String([1,2])\<close> is
  \<^verbatim>\<open>1,2\<close>, and neither search finds anything.
\<close>

theorem C10_results_from_nodes:
  "(\<forall>r \<in> set (performSearch h cs term data).
      (result_type r = Value \<longrightarrow>
         (\<exists>v p. (v, p) \<in> set (tree_nodes [] data) \<and>
            (\<forall>xs. v \<noteq> JArr xs) \<and> (\<forall>fs. v \<noteq> JObj fs) \<and>
            result_text r = js_String h v \<and> result_path r = join p ''.'')) \<and>
      (result_type r = Key \<longrightarrow>
         (\<exists>fs p. (JObj fs, p) \<in> set (tree_nodes [] data) \<and> result_text r \<in> fst ` set fs \<and>
            result_path r = join (p @ [result_text r]) ''.'')))
   \<and> performSearch h cs ''object'' (JObj []) = []
   \<and> performSearch h cs ''1,2'' (JArr [JNum (Fin 1), JNum (Fin 2)]) = []"
proof (intro conjI ballI impI)
  fix r
  assume r: "r \<in> set (performSearch h cs term data)"
  then have t: "term \<noteq> []"
    by (auto simp: performSearch_def)
  {
    assume "result_type r = Value"
    with r have "\<exists>r' \<in> set (performSearch h cs term data).
        result_path r' = result_path r \<and> result_type r' = Value \<and> result_text r' = result_text r"
      by blast
    then show "\<exists>v p. (v, p) \<in> set (tree_nodes [] data) \<and>
            (\<forall>xs. v \<noteq> JArr xs) \<and> (\<forall>fs. v \<noteq> JObj fs) \<and>
            result_text r = js_String h v \<and> result_path r = join p ''.''"
      unfolding search_value_results [OF t] by blast
  }
  {
    assume "result_type r = Key"
    with r have "\<exists>r' \<in> set (performSearch h cs term data).
        result_path r' = result_path r \<and> result_type r' = Key \<and> result_text r' = result_text r"
      by blast
    then show "\<exists>fs p. (JObj fs, p) \<in> set (tree_nodes [] data) \<and> result_text r \<in> fst ` set fs \<and>
            result_path r = join (p @ [result_text r]) ''.''"
      unfolding search_key_results [OF t] by blast
  }
next
  have "performSearch h True ''object'' (JObj []) = []"
    and "performSearch h False ''object'' (JObj []) = []"
    by code_simp+
  then show "performSearch h cs ''object'' (JObj []) = []"
    by (cases cs) simp_all
  have "performSearch h True ''1,2'' (JArr [JNum (Fin 1), JNum (Fin 2)]) = []"
    and "performSearch h False ''1,2'' (JArr [JNum (Fin 1), JNum (Fin 2)]) = []"
    by code_simp+
  then show "performSearch h cs ''1,2'' (JArr [JNum (Fin 1), JNum (Fin 2)]) = []"
    by (cases cs) simp_all
qed


theorem C10_results_from_nodes_witness:
  "\<lparr> result_path = ''a.b'', result_type = Value, result_text = ''hello'', position = 0 \<rparr>
     \<in> set (performSearch bare_host False ''hello'' (JObj [(''a'', JObj [(''b'', JStr ''hello'')])]))
   \<and> (\<exists>v p. (v, p) \<in> set (tree_nodes [] (JObj [(''a'', JObj [(''b'', JStr ''hello'')])])) \<and>
          (\<forall>xs. v \<noteq> JArr xs) \<and> (\<forall>fs. v \<noteq> JObj fs) \<and>
          ''hello'' = js_String bare_host v \<and> ''a.b'' = join p ''.'')"
proof -
  let ?r = "\<lparr> result_path = ''a.b'', result_type = Value, result_text = ''hello'',
               position = 0 \<rparr>"
  let ?data = "JObj [(''a'', JObj [(''b'', JStr ''hello'')])]"
  have "performSearch bare_host False ''hello'' ?data = [?r]"
    by code_simp
  then have mem: "?r \<in> set (performSearch bare_host False ''hello'' ?data)"
    by simp
  from C10_results_from_nodes [of bare_host False "''hello''" ?data] mem
  have "\<exists>v p. (v, p) \<in> set (tree_nodes [] ?data) \<and>
          (\<forall>xs. v \<noteq> JArr xs) \<and> (\<forall>fs. v \<noteq> JObj fs) \<and>
          result_text ?r = js_String bare_host v \<and> result_path ?r = join p ''.''"
    by (metis SearchResult.select_convs(2))
  with mem show ?thesis by simp
qed


section \<open>Properties of the validator\<close>

lemma absent_prop:
  "get_prop schema name = None \<Longrightarrow> truthy_prop schema name = None"
  "get_prop schema name = None \<Longrightarrow> array_prop schema name = None"
  by (simp_all add: truthy_prop_def array_prop_def)

lemma and_then_Normal: "and_then m Normal = m"
  by (cases m) simp_all

lemma no_keywords_checks:
  assumes "\<forall>name \<in> set schema_keywords. get_prop schema name = None"
  shows "check_type h data schema path errors = None"
    and "check_required h data schema path errors = Normal errors"
    and "check_properties validate data schema path errors = Normal errors"
    and "check_additionalProperties data schema path errors = errors"
    and "check_items validate data schema path errors = Normal errors"
    and "check_array h data schema path errors = Normal errors"
    and "check_string h data schema path errors = Normal errors"
    and "check_number h data schema path errors = Normal errors"
    and "check_enum h data schema path errors = errors"
    and "check_const h data schema path errors = errors"
    and "check_oneOf isolated data schema path errors = Normal errors"
    and "check_anyOf isolated data schema path errors = Normal errors"
    and "check_allOf validate' schema errors = Normal errors"
  using assms
  by (simp_all add: schema_keywords_def absent_prop check_type_def check_required_def
      check_properties_def check_additionalProperties_def check_items_def check_array_def
      check_minItems_def check_maxItems_def check_uniqueItems_def check_string_def
      check_minLength_def check_maxLength_def check_pattern_def check_format_def
      check_number_def check_bound_def check_multipleOf_def check_enum_def check_const_def
      check_oneOf_def check_anyOf_def check_allOf_def
      split: jsvalue.splits json.splits jnum.splits)

lemma no_keywords_valid:
  assumes "schema \<noteq> JNull" and "\<forall>name \<in> set schema_keywords. get_prop schema name = None"
  shows "validateAgainstSchema h data schema path errors = Normal errors"
  by (subst validateAgainstSchema.simps) (simp add: assms(1) no_keywords_checks [OF assms(2)])

text \<open>
  C6. Validating any value against the empty schema \<^verbatim>\<open>{}\<close> returns no error. More
  generally, a schema other than \<^verbatim>\<open>null\<close> with none of the fields that the validator
  reads leaves the error list as it is, for every value.
\<close>

theorem C6_empty_schema:
  "(json_parse h ''{}'' = Some (JObj []) \<longrightarrow> validateJsonSchema h v ''{}'' = [])
   \<and> (schema \<noteq> JNull \<and> (\<forall>name \<in> set schema_keywords. get_prop schema name = None) \<longrightarrow>
        validateAgainstSchema h data schema path errors = Normal errors)"
proof (intro conjI impI)
  assume "json_parse h ''{}'' = Some (JObj [])"
  moreover have "validateAgainstSchema h (Json v) (JObj []) [] [] = Normal []"
    by (rule no_keywords_valid) (simp_all add: get_prop_def)
  ultimately show "validateJsonSchema h v ''{}'' = []"
    by (simp add: validateJsonSchema_def)
next
  assume "schema \<noteq> JNull \<and> (\<forall>name \<in> set schema_keywords. get_prop schema name = None)"
  then show "validateAgainstSchema h data schema path errors = Normal errors"
    by (simp add: no_keywords_valid)
qed

theorem C6_empty_schema_witness:
  "json_parse (bare_host \<lparr> json_parse := (\<lambda>s. Some (JObj [])) \<rparr>) ''{}'' = Some (JObj [])
   \<and> validateJsonSchema (bare_host \<lparr> json_parse := (\<lambda>s. Some (JObj [])) \<rparr>)
        (JArr [JNum (Fin 1), JStr ''x'']) ''{}'' = []
   \<and> JBool True \<noteq> JNull
   \<and> validateAgainstSchema bare_host (Json (JNum (Fin 5))) (JBool True) ''p'' [] = Normal []
   \<and> validateAgainstSchema bare_host (Builtin ''toString'') (JBool True) ''p'' [] = Normal []"
proof -
  let ?h = "bare_host \<lparr> json_parse := (\<lambda>s. Some (JObj [])) \<rparr>"
  have p: "json_parse ?h ''{}'' = Some (JObj [])"
    by simp
  have k: "JBool True \<noteq> JNull \<and> (\<forall>name \<in> set schema_keywords. get_prop (JBool True) name = None)"
    by (simp add: get_prop_def)
  from p k C6_empty_schema [of ?h "JArr [JNum (Fin 1), JStr ''x'']" "JBool True"]
    C6_empty_schema [of bare_host _ "JBool True" "Json (JNum (Fin 5))" "''p''" "[]"]
    C6_empty_schema [of bare_host _ "JBool True" "Builtin ''toString''" "''p''" "[]"]
  show ?thesis by blast
qed

text \<open>
  C3, as amended. When the schema's \<^verbatim>\<open>type\<close> field is present and truthy and the value
  fails the type check, the call ends at the type check and no other check of the call adds
  anything. When the type has a string form, the call returns with exactly one error
  appended, at the current path and with the value. When it has none (an object with a
  property \<^verbatim>\<open>toString\<close> of its own, or an array with such an element), building the
  message throws before anything is appended.
\<close>

theorem C3_type_mismatch_returns_early:
  assumes "get_prop schema ''type'' = Some t" and "truthy t" and "fails_type data t"
  shows "(convertible t \<longrightarrow>
            (\<exists>e. validateAgainstSchema h data schema path errors = Normal (errors @ [e]) \<and>
                  error_path e = JStr path \<and> error_value e = Some data))
         \<and> (\<not> convertible t \<longrightarrow>
            validateAgainstSchema h data schema path errors = Thrown errors)"
proof -
  from assms(1) have nn: "schema \<noteq> JNull"
    by (auto simp: get_prop_def)
  from assms(1,2) have tp: "truthy_prop schema ''type'' = Some t"
    by (simp add: truthy_prop_def)
  have ended: "validateAgainstSchema h data schema path errors = ended"
    if "check_type h data schema path errors = Some ended" for ended
    by (subst validateAgainstSchema.simps) (simp add: nn that)
  have returns: "\<exists>e. check_type h data schema path errors = Some (Normal (errors @ [e])) \<and>
      error_path e = JStr path \<and> error_value e = Some data" if "convertible t"
    using assms(3) that unfolding check_type_def tp fails_type_def push_error_def ToString_def
    by (auto simp: Let_def split: if_splits jsvalue.splits json.splits)
  have throws: "check_type h data schema path errors = Some (Thrown errors)"
    if "\<not> convertible t"
  proof -
    from that have "t \<noteq> JStr ''integer''" and "t \<noteq> JStr ''number''"
      by auto
    with assms(3) that show ?thesis
      unfolding check_type_def tp fails_type_def push_error_def ToString_def
      by (simp add: Let_def)
  qed
  show ?thesis
  proof (intro conjI impI)
    assume "convertible t"
    from returns [OF this] obtain e
      where "check_type h data schema path errors = Some (Normal (errors @ [e]))"
        and "error_path e = JStr path" and "error_value e = Some data"
      by blast
    with ended show "\<exists>e. validateAgainstSchema h data schema path errors = Normal (errors @ [e]) \<and>
        error_path e = JStr path \<and> error_value e = Some data"
      by blast
  next
    assume "\<not> convertible t"
    from ended [OF throws [OF this]]
    show "validateAgainstSchema h data schema path errors = Thrown errors" .
  qed
qed

theorem C3_type_mismatch_returns_early_witness:
  "get_prop (JObj [(''type'', JStr ''string''), (''minimum'', JNum (Fin 10))]) ''type'' = Some (JStr ''string'')
   \<and> truthy (JStr ''string'') \<and> fails_type (Json (JNum (Fin 5))) (JStr ''string'')
   \<and> convertible (JStr ''string'')
   \<and> (\<exists>e. validateAgainstSchema bare_host (Json (JNum (Fin 5)))
              (JObj [(''type'', JStr ''string''), (''minimum'', JNum (Fin 10))]) ''p'' [] = Normal ([] @ [e])
            \<and> error_path e = JStr ''p'' \<and> error_value e = Some (Json (JNum (Fin 5))))
   \<and> get_prop (JObj [(''type'', JArr [JObj [(''toString'', JNull)]]), (''minimum'', JNum (Fin 10))]) ''type''
       = Some (JArr [JObj [(''toString'', JNull)]])
   \<and> truthy (JArr [JObj [(''toString'', JNull)]])
   \<and> fails_type (Json (JNum (Fin 5))) (JArr [JObj [(''toString'', JNull)]])
   \<and> \<not> convertible (JArr [JObj [(''toString'', JNull)]])
   \<and> validateAgainstSchema bare_host (Json (JNum (Fin 5)))
        (JObj [(''type'', JArr [JObj [(''toString'', JNull)]]), (''minimum'', JNum (Fin 10))]) ''p'' []
       = Thrown []"
proof -
  let ?schema = "JObj [(''type'', JStr ''string''), (''minimum'', JNum (Fin 10))]"
  let ?t = "JArr [JObj [(''toString'', JNull)]]"
  let ?schema' = "JObj [(''type'', ?t), (''minimum'', JNum (Fin 10))]"
  have a: "get_prop ?schema ''type'' = Some (JStr ''string'')"
    by (simp add: get_prop_def)
  have b: "truthy (JStr ''string'')"
    by simp
  have c: "fails_type (Json (JNum (Fin 5))) (JStr ''string'')"
    by (simp add: fails_type_def integral_def)
  have d: "convertible (JStr ''string'')"
    by simp
  have a': "get_prop ?schema' ''type'' = Some ?t"
    by (simp add: get_prop_def)
  have b': "truthy ?t"
    by simp
  have c': "fails_type (Json (JNum (Fin 5))) ?t"
    by (simp add: fails_type_def integral_def)
  have d': "\<not> convertible ?t"
    by simp
  from a b c d a' b' c' d'
    C3_type_mismatch_returns_early [OF a b c, of bare_host "''p''" "[]"]
    C3_type_mismatch_returns_early [OF a' b' c', of bare_host "''p''" "[]"]
  show ?thesis by blast
qed

text \<open>
  C3 as first stated asks only that the \<^verbatim>\<open>type\<close> field be present. The field
  \<^verbatim>\<open>"type": ""\<close> is present and the number 5 is not of that type, but \<^verbatim>\<open>if (schema.type)\<close>
  skips the check and no error is appended. The field \<^verbatim>\<open>"type": {"toString": 0}\<close> is
  present and the number 5 is not of that type either, but the call throws and no error is
  appended.
\<close>

theorem C3_type_field_counterexample:
  "get_prop (JObj [(''type'', JStr [])]) ''type'' = Some (JStr [])
   \<and> fails_type (Json (JNum (Fin 5))) (JStr [])
   \<and> validateAgainstSchema bare_host (Json (JNum (Fin 5))) (JObj [(''type'', JStr [])]) [] []
       = Normal []
   \<and> get_prop (JObj [(''type'', JObj [(''toString'', JNum (Fin 0))])]) ''type''
       = Some (JObj [(''toString'', JNum (Fin 0))])
   \<and> fails_type (Json (JNum (Fin 5))) (JObj [(''toString'', JNum (Fin 0))])
   \<and> validateAgainstSchema bare_host (Json (JNum (Fin 5)))
        (JObj [(''type'', JObj [(''toString'', JNum (Fin 0))])]) [] []
       = Thrown []"
proof (intro conjI)
  show "get_prop (JObj [(''type'', JStr [])]) ''type'' = Some (JStr [])"
    by (simp add: get_prop_def)
  show "fails_type (Json (JNum (Fin 5))) (JStr [])"
    by (simp add: fails_type_def integral_def)
  show "validateAgainstSchema bare_host (Json (JNum (Fin 5))) (JObj [(''type'', JStr [])]) [] []
       = Normal []"
    by code_simp
  show "get_prop (JObj [(''type'', JObj [(''toString'', JNum (Fin 0))])]) ''type''
       = Some (JObj [(''toString'', JNum (Fin 0))])"
    by (simp add: get_prop_def)
  show "fails_type (Json (JNum (Fin 5))) (JObj [(''toString'', JNum (Fin 0))])"
    by (simp add: fails_type_def integral_def)
  show "validateAgainstSchema bare_host (Json (JNum (Fin 5)))
        (JObj [(''type'', JObj [(''toString'', JNum (Fin 0))])]) [] []
       = Thrown []"
    by code_simp
qed


lemma single_prop:
  "name \<noteq> key \<Longrightarrow> get_prop (JObj [(key, v)]) name = None"
  by (simp add: get_prop_def)




lemma forEach_required:
  "forEach (\<lambda>entry errors.
              case ToString h entry of
                None \<Rightarrow> Thrown errors
              | Some name \<Rightarrow>
                  if \<not> present name then Normal (errors @ [missing entry name])
                  else Normal errors)
     entries errors =
   (let added =
          map (\<lambda>entry. missing entry (js_String h entry))
            (filter (\<lambda>entry. \<not> present (js_String h entry)) (takeWhile convertible entries))
    in if list_all convertible entries then Normal (errors @ added)
       else Thrown (errors @ added))"
  by (induction entries arbitrary: errors) (simp_all add: ToString_def Let_def)

lemma only_required:
  "validateAgainstSchema h data (JObj [(''required'', JArr entries)]) path errors =
   check_required h data (JObj [(''required'', JArr entries)]) path errors"
proof -
  let ?schema = "JObj [(''required'', JArr entries)]"
  have others:
    "check_type h data ?schema path es = None"
    "check_properties validate data ?schema path es = Normal es"
    "check_additionalProperties data ?schema path es = es"
    "check_items validate data ?schema path es = Normal es"
    "check_array h data ?schema path es = Normal es"
    "check_string h data ?schema path es = Normal es"
    "check_number h data ?schema path es = Normal es"
    "check_enum h data ?schema path es = es"
    "check_const h data ?schema path es = es"
    "check_oneOf isolated data ?schema path es = Normal es"
    "check_anyOf isolated data ?schema path es = Normal es"
    "check_allOf validate' ?schema es = Normal es"
    for es validate isolated validate'
    by (simp_all add: single_prop absent_prop check_type_def
      check_properties_def check_additionalProperties_def check_items_def check_array_def
      check_minItems_def check_maxItems_def check_uniqueItems_def check_string_def
      check_minLength_def check_maxLength_def check_pattern_def check_format_def
      check_number_def check_bound_def check_multipleOf_def check_enum_def check_const_def
      check_oneOf_def check_anyOf_def check_allOf_def
      split: jsvalue.splits json.splits jnum.splits)
  show ?thesis
    by (subst validateAgainstSchema.simps)
       (simp add: others, cases "check_required h data ?schema path errors"; simp)
qed

text \<open>
  C5. For \<^verbatim>\<open>{"a":1}\<close> and the schema \<^verbatim>\<open>{"type":"object","required":["a","b"]}\<close> the
  validator returns exactly one error: property \<^verbatim>\<open>b\<close> is missing, the path is \<^verbatim>\<open>b\<close>
  with no leading dot, the value is undefined. But for \<^verbatim>\<open>{}\<close> and the schema
  \<^verbatim>\<open>{"required":["toString"]}\<close> it returns no error, although \<^verbatim>\<open>toString\<close> is not a
  key of the value: the test \<^verbatim>\<open>prop in data\<close> also holds for the names that every object
  inherits from \<^verbatim>\<open>Object.prototype\<close>.

  In general, for a plain object and a \<^verbatim>\<open>required\<close> list, the check takes the entries
  in the order of the list, up to the first that has no string form, where it throws. For
  each entry whose string form is neither a key of the object nor a name of
  \<^verbatim>\<open>Object.prototype\<close> it appends one error, and it appends nothing else; the path is
  the entry at the root and the current path, a dot and the name elsewhere. For a schema
  that consists of \<^verbatim>\<open>required\<close> the whole validation is this check.
\<close>

theorem C5_required_sees_inherited_names:
  "(json_parse h schemaString =
      Some (JObj [(''type'', JStr ''object''), (''required'', JArr [JStr ''a'', JStr ''b''])]) \<longrightarrow>
    validateJsonSchema h (JObj [(''a'', JNum (Fin 1))]) schemaString =
      [\<lparr> error_path = JStr ''b'', error_message = ''Missing required property: b'',
          error_value = None \<rparr>])
   \<and> (json_parse h schemaString = Some (JObj [(''required'', JArr [JStr ''toString''])]) \<longrightarrow>
      ''toString'' \<notin> set (object_keys (JObj [])) \<and>
      validateJsonSchema h (JObj []) schemaString = [])
   \<and> (is_plain_object data \<and> array_prop schema ''required'' = Some entries \<longrightarrow>
        check_required h data schema path errors =
          (let missing =
                 filter (\<lambda>entry. js_String h entry \<notin> set (value_keys data) \<and>
                                  js_String h entry \<notin> set object_prototype_names)
                   (takeWhile convertible entries);
               added =
                 map (\<lambda>entry.
                        \<lparr> error_path =
                             (if path = [] then entry
                              else JStr (path @ ''.'' @ js_String h entry)),
                           error_message = ''Missing required property: '' @ js_String h entry,
                           error_value = None \<rparr>)
                   missing
           in if list_all convertible entries then Normal (errors @ added)
              else Thrown (errors @ added)))
   \<and> validateAgainstSchema h data (JObj [(''required'', JArr entries)]) path errors =
       check_required h data (JObj [(''required'', JArr entries)]) path errors"
proof (intro conjI impI)
  assume "json_parse h schemaString =
      Some (JObj [(''type'', JStr ''object''), (''required'', JArr [JStr ''a'', JStr ''b''])])"
  moreover have "validateAgainstSchema h (Json (JObj [(''a'', JNum (Fin 1))]))
      (JObj [(''type'', JStr ''object''), (''required'', JArr [JStr ''a'', JStr ''b''])]) [] [] =
      Normal [\<lparr> error_path = JStr ''b'', error_message = ''Missing required property: b'',
                error_value = None \<rparr>]"
    by code_simp
  ultimately show "validateJsonSchema h (JObj [(''a'', JNum (Fin 1))]) schemaString =
      [\<lparr> error_path = JStr ''b'', error_message = ''Missing required property: b'',
          error_value = None \<rparr>]"
    by (simp add: validateJsonSchema_def)
next
  show "''toString'' \<notin> set (object_keys (JObj []))"
    by simp
next
  assume "json_parse h schemaString = Some (JObj [(''required'', JArr [JStr ''toString''])])"
  moreover have "validateAgainstSchema h (Json (JObj []))
      (JObj [(''required'', JArr [JStr ''toString''])]) [] [] = Normal []"
    by code_simp
  ultimately show "validateJsonSchema h (JObj []) schemaString = []"
    by (simp add: validateJsonSchema_def)
next
  assume "is_plain_object data \<and> array_prop schema ''required'' = Some entries"
  then show "check_required h data schema path errors =
          (let missing =
                 filter (\<lambda>entry. js_String h entry \<notin> set (value_keys data) \<and>
                                  js_String h entry \<notin> set object_prototype_names)
                   (takeWhile convertible entries);
               added =
                 map (\<lambda>entry.
                        \<lparr> error_path =
                             (if path = [] then entry
                              else JStr (path @ ''.'' @ js_String h entry)),
                           error_message = ''Missing required property: '' @ js_String h entry,
                           error_value = None \<rparr>)
                   missing
           in if list_all convertible entries then Normal (errors @ added)
              else Thrown (errors @ added))"
    by (simp add: check_required_def forEach_required has_property_def Let_def
        cong: if_cong)
next
  show "validateAgainstSchema h data (JObj [(''required'', JArr entries)]) path errors =
       check_required h data (JObj [(''required'', JArr entries)]) path errors"
    by (rule only_required)
qed

theorem C5_required_sees_inherited_names_witness:
  "json_parse (bare_host \<lparr> json_parse := (\<lambda>s. Some (JObj [(''type'', JStr ''object''),
       (''required'', JArr [JStr ''a'', JStr ''b''])])) \<rparr>) ''schema''
     = Some (JObj [(''type'', JStr ''object''), (''required'', JArr [JStr ''a'', JStr ''b''])])
   \<and> validateJsonSchema (bare_host \<lparr> json_parse := (\<lambda>s. Some (JObj [(''type'', JStr ''object''),
       (''required'', JArr [JStr ''a'', JStr ''b''])])) \<rparr>) (JObj [(''a'', JNum (Fin 1))]) ''schema''
     = [\<lparr> error_path = JStr ''b'', error_message = ''Missing required property: b'',
          error_value = None \<rparr>]
   \<and> json_parse (bare_host \<lparr> json_parse := (\<lambda>s. Some (JObj [(''required'',
       JArr [JStr ''toString''])])) \<rparr>) ''schema''
     = Some (JObj [(''required'', JArr [JStr ''toString''])])
   \<and> validateJsonSchema (bare_host \<lparr> json_parse := (\<lambda>s. Some (JObj [(''required'',
       JArr [JStr ''toString''])])) \<rparr>) (JObj []) ''schema'' = []
   \<and> is_plain_object (Json (JObj [(''x'', JNull)]))
   \<and> array_prop (JObj [(''required'', JArr [JStr ''x'', JStr ''y'', JStr ''valueOf'', JStr ''z''])])
        ''required''
     = Some [JStr ''x'', JStr ''y'', JStr ''valueOf'', JStr ''z'']
   \<and> check_required bare_host (Json (JObj [(''x'', JNull)]))
       (JObj [(''required'', JArr [JStr ''x'', JStr ''y'', JStr ''valueOf'', JStr ''z''])]) ''p'' []
     = Normal
        [\<lparr> error_path = JStr ''p.y'', error_message = ''Missing required property: y'',
            error_value = None \<rparr>,
         \<lparr> error_path = JStr ''p.z'', error_message = ''Missing required property: z'',
            error_value = None \<rparr>]
   \<and> array_prop (JObj [(''required'', JArr [JBool True, JObj [(''toString'', JNull)], JStr ''z''])])
        ''required''
     = Some [JBool True, JObj [(''toString'', JNull)], JStr ''z'']
   \<and> check_required bare_host (Json (JObj [(''x'', JNull)]))
       (JObj [(''required'', JArr [JBool True, JObj [(''toString'', JNull)], JStr ''z''])]) [] []
     = Thrown
        [\<lparr> error_path = JBool True, error_message = ''Missing required property: true'',
            error_value = None \<rparr>]"
proof -
  let ?s = "JObj [(''type'', JStr ''object''), (''required'', JArr [JStr ''a'', JStr ''b''])]"
  let ?h = "bare_host \<lparr> json_parse := (\<lambda>s. Some ?s) \<rparr>"
  let ?s' = "JObj [(''required'', JArr [JStr ''toString''])]"
  let ?h' = "bare_host \<lparr> json_parse := (\<lambda>s. Some ?s') \<rparr>"
  let ?data = "Json (JObj [(''x'', JNull)])"
  let ?names = "[JStr ''x'', JStr ''y'', JStr ''valueOf'', JStr ''z'']"
  let ?r = "JObj [(''required'', JArr ?names)]"
  let ?entries = "[JBool True, JObj [(''toString'', JNull)], JStr ''z'']"
  let ?r' = "JObj [(''required'', JArr ?entries)]"
  have p: "json_parse ?h ''schema'' = Some ?s"
    by simp
  have p': "json_parse ?h' ''schema'' = Some ?s'"
    by simp
  have o: "is_plain_object ?data"
    by (simp add: is_plain_object_def)
  have r: "array_prop ?r ''required'' = Some ?names"
    by (simp add: array_prop_def get_prop_def)
  have r': "array_prop ?r' ''required'' = Some ?entries"
    by (simp add: array_prop_def get_prop_def)
  from C5_required_sees_inherited_names [of ?h "''schema''"] p
  have 1: "validateJsonSchema ?h (JObj [(''a'', JNum (Fin 1))]) ''schema'' =
      [\<lparr> error_path = JStr ''b'', error_message = ''Missing required property: b'',
          error_value = None \<rparr>]"
    by blast
  from C5_required_sees_inherited_names [of ?h' "''schema''"] p'
  have 2: "validateJsonSchema ?h' (JObj []) ''schema'' = []"
    by blast
  from C5_required_sees_inherited_names [where h = bare_host and data = ?data and schema = ?r
      and entries = ?names and path = "''p''" and errors = "[]"] o r
  have 3: "check_required bare_host ?data ?r ''p'' [] =
      Normal
        [\<lparr> error_path = JStr ''p.y'', error_message = ''Missing required property: y'',
            error_value = None \<rparr>,
         \<lparr> error_path = JStr ''p.z'', error_message = ''Missing required property: z'',
            error_value = None \<rparr>]"
    by (simp add: object_prototype_names_def object_prototype_functions_def)
  from C5_required_sees_inherited_names [where h = bare_host and data = ?data and schema = ?r'
      and entries = ?entries and path = "[]" and errors = "[]"] o r'
  have 4: "check_required bare_host ?data ?r' [] [] =
      Thrown
        [\<lparr> error_path = JBool True, error_message = ''Missing required property: true'',
            error_value = None \<rparr>]"
    by (simp add: object_prototype_names_def object_prototype_functions_def)
  from p 1 p' 2 o r 3 r' 4 show ?thesis by (intro conjI)
qed

text \<open>
  C2. With \<^verbatim>\<open>maxItems\<close> 0 and an array of one element the validator appends no error:
  \<^verbatim>\<open>schema.maxItems && ...\<close> is false for 0, so the bound is not checked. Other bounds
  are checked: \<^verbatim>\<open>maxItems\<close> 1 against two elements and \<^verbatim>\<open>minItems\<close> 1 against none
  give one error each, and the string check, which tests \<^verbatim>\<open>maxLength !== undefined\<close>,
  does report a string longer than \<^verbatim>\<open>maxLength\<close> 0.
\<close>

theorem C2_maxItems_zero_not_checked:
  "validateAgainstSchema h (Json (JArr [JNum (Fin 1)])) (JObj [(''maxItems'', JNum (Fin 0))]) [] [] =
     Normal []
   \<and> validateAgainstSchema h (Json (JArr [JNum (Fin 1), JNum (Fin 2)]))
       (JObj [(''maxItems'', JNum (Fin 1))]) [] [] =
     Normal [\<lparr> error_path = JStr [],
               error_message = ''Array too long. Maximum items: 1, got 2'',
               error_value = Some (Json (JArr [JNum (Fin 1), JNum (Fin 2)])) \<rparr>]
   \<and> validateAgainstSchema h (Json (JArr [])) (JObj [(''minItems'', JNum (Fin 1))]) [] [] =
     Normal [\<lparr> error_path = JStr [],
               error_message = ''Array too short. Minimum items: 1, got 0'',
               error_value = Some (Json (JArr [])) \<rparr>]
   \<and> validateAgainstSchema h (Json (JStr ''x'')) (JObj [(''maxLength'', JNum (Fin 0))]) [] [] =
     Normal [\<lparr> error_path = JStr [],
               error_message = ''String too long. Maximum length: 0, got 1'',
               error_value = Some (Json (JStr ''x'')) \<rparr>]"
  by (intro conjI; code_simp)


lemma indexed_snoc: "indexed (xs @ [x]) = indexed xs @ [(x, length xs)]"
  by (simp add: indexed_def)

lemma earlier_same_snoc:
  "i < length xs \<Longrightarrow>
   (\<exists>j < i. f ((xs @ [x]) ! j) = f ((xs @ [x]) ! i)) = (\<exists>j < i. f (xs ! j) = f (xs ! i))"
  by (simp add: nth_append cong: conj_cong)

lemma earlier_same_last:
  "(\<exists>j < length xs. f ((xs @ [x]) ! j) = f x) = (f x \<in> f ` set xs)"
proof
  assume "\<exists>j < length xs. f ((xs @ [x]) ! j) = f x"
  then obtain j where "j < length xs" and "f (xs ! j) = f x"
    by (auto simp: nth_append)
  then show "f x \<in> f ` set xs"
    by (metis imageI nth_mem)
next
  assume "f x \<in> f ` set xs"
  then obtain y where "y \<in> set xs" and "f x = f y"
    by blast
  then obtain j where "j < length xs" and "xs ! j = y"
    by (auto simp: in_set_conv_nth)
  with \<open>f x = f y\<close> show "\<exists>j < length xs. f ((xs @ [x]) ! j) = f x"
    by (auto simp: nth_append)
qed

lemma fold_note_item:
  "fold (note_item h) (indexed xs) ([], []) = (seen, duplicates) \<Longrightarrow>
   set seen = JSON_stringify h ` set xs \<and>
   duplicates =
     filter (\<lambda>i. \<exists>j < i. JSON_stringify h (xs ! j) = JSON_stringify h (xs ! i)) [0 ..< length xs]"
proof (induction xs arbitrary: seen duplicates rule: rev_induct)
  case Nil
  then show ?case by (simp add: indexed_def)
next
  case (snoc x xs)
  let ?S = "JSON_stringify h"
  obtain seen0 dups0 where f: "fold (note_item h) (indexed xs) ([], []) = (seen0, dups0)"
    by (cases "fold (note_item h) (indexed xs) ([], [])")
  from snoc.IH [OF f] have s0: "set seen0 = ?S ` set xs"
    and d0: "dups0 = filter (\<lambda>i. \<exists>j < i. ?S (xs ! j) = ?S (xs ! i)) [0 ..< length xs]"
    by simp_all
  have old: "filter (\<lambda>i. \<exists>j < i. ?S ((xs @ [x]) ! j) = ?S ((xs @ [x]) ! i)) [0 ..< length xs] = dups0"
    unfolding d0 by (rule filter_cong [OF refl]) (simp add: earlier_same_snoc)
  have last: "(\<exists>j < length xs. ?S ((xs @ [x]) ! j) = ?S x) = (?S x \<in> set seen0)"
    unfolding s0 by (rule earlier_same_last)
  have all: "filter (\<lambda>i. \<exists>j < i. ?S ((xs @ [x]) ! j) = ?S ((xs @ [x]) ! i)) [0 ..< length (xs @ [x])] =
      dups0 @ (if ?S x \<in> set seen0 then [length xs] else [])"
    by (simp add: old last)
  from snoc.prems have step: "(seen, duplicates) = note_item h (x, length xs) (seen0, dups0)"
    by (simp add: indexed_snoc f)
  show ?case
  proof (cases "?S x \<in> set seen0")
    case True
    with step have "seen = seen0" "duplicates = dups0 @ [length xs]"
      by (simp_all add: note_item_def)
    with True s0 show ?thesis
      unfolding all by auto
  next
    case False
    with step have "seen = seen0 @ [?S x]" "duplicates = dups0"
      by (simp_all add: note_item_def)
    with False s0 show ?thesis
      unfolding all by auto
  qed
qed

lemma duplicates_eq:
  "snd (fold (note_item h) (indexed xs) ([], [])) =
   filter (\<lambda>i. \<exists>j < i. JSON_stringify h (xs ! j) = JSON_stringify h (xs ! i)) [0 ..< length xs]"
  using fold_note_item [of h xs] by (cases "fold (note_item h) (indexed xs) ([], [])") simp

text \<open>
  C1, as amended. The equality used by \<^verbatim>\<open>enum\<close>, \<^verbatim>\<open>const\<close> and \<^verbatim>\<open>uniqueItems\<close> is
  equality of the \<^verbatim>\<open>JSON.stringify\<close> texts, in which the keys of an object come in the
  object's own order: the \<^verbatim>\<open>enum\<close> check appends nothing exactly when some candidate
  has the text of the value, the \<^verbatim>\<open>const\<close> check exactly when the constant has it, and
  the \<^verbatim>\<open>uniqueItems\<close> check reports the indices of the elements whose text is that of
  an earlier element, once, when there is such an index.
\<close>

theorem C1_equality_of_serialized_text:
  "(array_prop schema ''enum'' = Some enumValues \<longrightarrow>
      (check_enum h data schema path errors = errors \<longleftrightarrow>
       (\<exists>enumValue \<in> set enumValues.
          Some (JSON_stringify h enumValue) = value_stringify h data)))
   \<and> (get_prop schema ''const'' = Some const \<longrightarrow>
      (check_const h data schema path errors = errors \<longleftrightarrow>
       value_stringify h data = Some (JSON_stringify h const)))
   \<and> (get_prop schema ''uniqueItems'' = Some (JBool True) \<longrightarrow>
      check_uniqueItems h (Json (JArr items)) schema path errors =
        (let duplicates =
           filter (\<lambda>i. \<exists>j < i. JSON_stringify h (items ! j) = JSON_stringify h (items ! i))
             [0 ..< length items]
         in if duplicates = [] then errors
            else errors @
              [\<lparr> error_path = JStr path,
                 error_message =
                   ''Array items must be unique. Duplicate items at indices: ''
                   @ join (map dec duplicates) '', '',
                 error_value = Some (Json (JArr items)) \<rparr>]))
   \<and> value_stringify h (Json v) = Some (JSON_stringify h v)"
  by (auto simp: check_enum_def check_const_def check_uniqueItems_def duplicates_eq Let_def
      list_ex_iff)

theorem C1_equality_of_serialized_text_witness:
  "array_prop (JObj [(''enum'', JArr [JObj [(''a'', JNum (Fin 1)), (''b'', JNum (Fin 2))]])]) ''enum''
     = Some [JObj [(''a'', JNum (Fin 1)), (''b'', JNum (Fin 2))]]
   \<and> check_enum bare_host (Json (JObj [(''a'', JNum (Fin 1)), (''b'', JNum (Fin 2))]))
       (JObj [(''enum'', JArr [JObj [(''a'', JNum (Fin 1)), (''b'', JNum (Fin 2))]])]) ''p'' [] = []
   \<and> get_prop (JObj [(''const'', JStr ''x'')]) ''const'' = Some (JStr ''x'')
   \<and> check_const bare_host (Json (JStr ''x'')) (JObj [(''const'', JStr ''x'')]) ''p'' [] = []
   \<and> get_prop (JObj [(''uniqueItems'', JBool True)]) ''uniqueItems'' = Some (JBool True)
   \<and> check_uniqueItems bare_host (Json (JArr [JNum (Fin 7), JStr ''7'', JNum (Fin 7)]))
       (JObj [(''uniqueItems'', JBool True)]) ''p'' [] =
       [\<lparr> error_path = JStr ''p'',
           error_message = ''Array items must be unique. Duplicate items at indices: 2'',
           error_value = Some (Json (JArr [JNum (Fin 7), JStr ''7'', JNum (Fin 7)])) \<rparr>]"
proof -
  let ?d = "JObj [(''a'', JNum (Fin 1)), (''b'', JNum (Fin 2))]"
  let ?e = "JObj [(''enum'', JArr [?d])]"
  let ?c = "JObj [(''const'', JStr ''x'')]"
  let ?u = "JObj [(''uniqueItems'', JBool True)]"
  let ?items = "[JNum (Fin 7), JStr ''7'', JNum (Fin 7)]"
  have e: "array_prop ?e ''enum'' = Some [?d]"
    by (simp add: array_prop_def get_prop_def)
  have c: "get_prop ?c ''const'' = Some (JStr ''x'')"
    by (simp add: get_prop_def)
  have u: "get_prop ?u ''uniqueItems'' = Some (JBool True)"
    by (simp add: get_prop_def)
  from C1_equality_of_serialized_text [where schema = ?e and enumValues = "[?d]"
      and h = bare_host and data = "Json ?d" and path = "''p''" and errors = "[]"] e
  have 1: "check_enum bare_host (Json ?d) ?e ''p'' [] = []"
    by simp
  from C1_equality_of_serialized_text [where schema = ?c and const = "JStr ''x''"
      and h = bare_host and data = "Json (JStr ''x'')" and path = "''p''" and errors = "[]"] c
  have 2: "check_const bare_host (Json (JStr ''x'')) ?c ''p'' [] = []"
    by simp
  have ex: "(\<exists>j < i. P j) = list_ex P [0 ..< i]" for i :: nat and P
    by (auto simp: list_ex_iff)
  have dups: "filter (\<lambda>i. \<exists>j < i. JSON_stringify bare_host (?items ! j) =
                                  JSON_stringify bare_host (?items ! i)) [0 ..< length ?items] = [2]"
    unfolding ex by code_simp
  have msg: "join (map dec [2]) '', '' = ''2''"
    by code_simp
  from C1_equality_of_serialized_text [where schema = ?u and items = ?items
      and h = bare_host and path = "''p''" and errors = "[]"] u
  have 3: "check_uniqueItems bare_host (Json (JArr ?items)) ?u ''p'' [] =
       [\<lparr> error_path = JStr ''p'',
           error_message = ''Array items must be unique. Duplicate items at indices: 2'',
           error_value = Some (Json (JArr ?items)) \<rparr>]"
    unfolding dups Let_def msg by simp
  from e 1 c 2 u 3 show ?thesis by (intro conjI)
qed

text \<open>
  C1 as first stated does not hold: the objects \<^verbatim>\<open>{"a":1,"b":2}\<close> and
  \<^verbatim>\<open>{"b":2,"a":1}\<close> have the same pairs in another order and different
  \<^verbatim>\<open>JSON.stringify\<close> texts, so the first is rejected by an \<^verbatim>\<open>enum\<close> and by a
  \<^verbatim>\<open>const\<close> of the second, and an array of the two passes \<^verbatim>\<open>uniqueItems\<close>.
\<close>

theorem C1_key_order_counterexample:
  "JSON_stringify bare_host (JObj [(''a'', JNum (Fin 1)), (''b'', JNum (Fin 2))])
     \<noteq> JSON_stringify bare_host (JObj [(''b'', JNum (Fin 2)), (''a'', JNum (Fin 1))])
   \<and> validateAgainstSchema bare_host (Json (JObj [(''a'', JNum (Fin 1)), (''b'', JNum (Fin 2))]))
       (JObj [(''enum'', JArr [JObj [(''b'', JNum (Fin 2)), (''a'', JNum (Fin 1))]])]) [] []
     \<noteq> Normal []
   \<and> validateAgainstSchema bare_host (Json (JObj [(''a'', JNum (Fin 1)), (''b'', JNum (Fin 2))]))
       (JObj [(''const'', JObj [(''b'', JNum (Fin 2)), (''a'', JNum (Fin 1))])]) [] []
     \<noteq> Normal []
   \<and> validateAgainstSchema bare_host
       (Json (JArr [JObj [(''a'', JNum (Fin 1)), (''b'', JNum (Fin 2))],
                    JObj [(''b'', JNum (Fin 2)), (''a'', JNum (Fin 1))]]))
       (JObj [(''uniqueItems'', JBool True)]) [] []
     = Normal []"
  by (intro conjI; code_simp)

end
